theory Spec2Isabelle
  imports Complex_Main "HOL-Library.Multiset"
begin

section \<open>Floating-point values\<close>

text \<open>
  The script computes with numpy \<open>float64\<close> values: a finite value is a real
  number, and the three special values are kept, because the script's degenerate
  cases are decided by how \<open>nan\<close> propagates and compares. With
  \<^verbatim>\<open>warnings.filterwarnings('ignore')\<close> numpy arithmetic never raises: a
  division by zero yields \<open>nan\<close> or an infinity.

  The operations \<open>np_add\<close>, \<open>np_mul\<close>, \<open>np_div\<close>, \<open>np_sqrt\<close> below give the exact
  result of an operation. The aggregator is modelled with them (rounding is
  outside the model there). The effect-size code is modelled with the rounded
  operations \<open>f64_add\<close>, \<open>f64_mul\<close>, \<open>f64_div\<close>, \<open>f64_sqrt\<close> further down,
  because its guard \<open>pooled_std > 0\<close> is decided by rounding.
\<close>

datatype npfloat = Num real | PInf | NInf | NaN

datatype py_error = KeyError | IndexError | ValueError | LibraryError

fun inf_of :: "real \<Rightarrow> npfloat" where
  "inf_of s = (if s = 0 then NaN else if 0 < s then PInf else NInf)"

fun sgn_of :: "npfloat \<Rightarrow> real" where
  "sgn_of PInf = 1"
| "sgn_of NInf = - 1"
| "sgn_of (Num x) = (if x < 0 then - 1 else 1)"
| "sgn_of NaN = 0"

fun np_neg :: "npfloat \<Rightarrow> npfloat" where
  "np_neg (Num x) = Num (- x)"
| "np_neg PInf = NInf"
| "np_neg NInf = PInf"
| "np_neg NaN = NaN"

fun np_abs :: "npfloat \<Rightarrow> npfloat" where
  "np_abs (Num x) = Num \<bar>x\<bar>"
| "np_abs PInf = PInf"
| "np_abs NInf = PInf"
| "np_abs NaN = NaN"

fun np_add :: "npfloat \<Rightarrow> npfloat \<Rightarrow> npfloat" where
  "np_add (Num a) (Num b) = Num (a + b)"
| "np_add NaN _ = NaN"
| "np_add _ NaN = NaN"
| "np_add PInf NInf = NaN"
| "np_add NInf PInf = NaN"
| "np_add PInf _ = PInf"
| "np_add _ PInf = PInf"
| "np_add NInf _ = NInf"
| "np_add _ NInf = NInf"

definition np_sub :: "npfloat \<Rightarrow> npfloat \<Rightarrow> npfloat" where
  "np_sub a b = np_add a (np_neg b)"

fun np_mul :: "npfloat \<Rightarrow> npfloat \<Rightarrow> npfloat" where
  "np_mul (Num a) (Num b) = Num (a * b)"
| "np_mul NaN _ = NaN"
| "np_mul _ NaN = NaN"
| "np_mul (Num a) y = inf_of (a * sgn_of y)"
| "np_mul x (Num b) = inf_of (sgn_of x * b)"
| "np_mul x y = inf_of (sgn_of x * sgn_of y)"

fun np_div :: "npfloat \<Rightarrow> npfloat \<Rightarrow> npfloat" where
  "np_div (Num a) (Num b) = (if b = 0 then inf_of a else Num (a / b))"
| "np_div NaN _ = NaN"
| "np_div _ NaN = NaN"
| "np_div (Num a) _ = Num 0"
| "np_div x (Num b) = inf_of (sgn_of x * sgn_of (Num b))"
| "np_div _ _ = NaN"

fun np_sqrt :: "npfloat \<Rightarrow> npfloat" where
  "np_sqrt (Num x) = (if x < 0 then NaN else Num (sqrt x))"
| "np_sqrt PInf = PInf"
| "np_sqrt NInf = NaN"
| "np_sqrt NaN = NaN"

text \<open>The comparison \<open>a > b\<close>: false as soon as one side is \<open>nan\<close>.\<close>

fun np_gt :: "npfloat \<Rightarrow> npfloat \<Rightarrow> bool" where
  "np_gt (Num a) (Num b) = (b < a)"
| "np_gt NaN _ = False"
| "np_gt _ NaN = False"
| "np_gt PInf PInf = False"
| "np_gt PInf _ = True"
| "np_gt _ PInf = False"
| "np_gt NInf _ = False"
| "np_gt _ NInf = True"

text \<open>
  IEEE 754 binary64 rounding of an exact result: to the nearest value with a
  53-bit significand, ties to the even significand, gradual underflow below
  \<open>2 powr - 1022\<close>, an infinity from \<open>2 ^ 1024\<close> on. Addition, subtraction,
  multiplication, division and square root of \<open>float64\<close> values are the exact
  operation followed by this rounding. (The sign of a zero is not modelled.)
\<close>

definition round_half_even :: "real \<Rightarrow> int" where
  "round_half_even y =
     (if y - of_int \<lfloor>y\<rfloor> < 1 / 2 then \<lfloor>y\<rfloor>
      else if 1 / 2 < y - of_int \<lfloor>y\<rfloor> then \<lfloor>y\<rfloor> + 1
      else if even \<lfloor>y\<rfloor> then \<lfloor>y\<rfloor> else \<lfloor>y\<rfloor> + 1)"

definition overflow_threshold :: real where
  "overflow_threshold = 2 ^ 1024"

definition float64 :: "real \<Rightarrow> npfloat" where
  "float64 x =
     (if x = 0 then Num 0
      else let e = max \<lfloor>log 2 \<bar>x\<bar>\<rfloor> (- 1022);
               ulp = 2 powr (of_int e - 52);
               r = of_int (round_half_even (x / ulp)) * ulp
           in if overflow_threshold \<le> \<bar>r\<bar> then (if 0 < x then PInf else NInf) else Num r)"

fun round_np :: "npfloat \<Rightarrow> npfloat" where
  "round_np (Num x) = float64 x"
| "round_np v = v"

definition f64_add :: "npfloat \<Rightarrow> npfloat \<Rightarrow> npfloat" where
  "f64_add a b = round_np (np_add a b)"

definition f64_sub :: "npfloat \<Rightarrow> npfloat \<Rightarrow> npfloat" where
  "f64_sub a b = round_np (np_sub a b)"

definition f64_mul :: "npfloat \<Rightarrow> npfloat \<Rightarrow> npfloat" where
  "f64_mul a b = round_np (np_mul a b)"

definition f64_div :: "npfloat \<Rightarrow> npfloat \<Rightarrow> npfloat" where
  "f64_div a b = round_np (np_div a b)"

definition f64_sqrt :: "npfloat \<Rightarrow> npfloat" where
  "f64_sqrt a = round_np (np_sqrt a)"

text \<open>
  \<open>Series.max()\<close> of pandas skips \<open>nan\<close> entries and is \<open>nan\<close> when nothing is
  left. \<open>np.mean\<close> of no value is \<open>nan\<close>.
\<close>

definition np_max2 :: "npfloat \<Rightarrow> npfloat \<Rightarrow> npfloat" where
  "np_max2 a b = (if np_gt b a then b else a)"

definition series_max :: "npfloat list \<Rightarrow> npfloat" where
  "series_max col =
     (case filter (\<lambda>v. v \<noteq> NaN) col of
        [] \<Rightarrow> NaN
      | v # vs \<Rightarrow> fold (\<lambda>w acc. np_max2 acc w) vs v)"

definition mean :: "real list \<Rightarrow> real" where
  "mean xs = sum_list xs / real (length xs)"

definition np_mean :: "real list \<Rightarrow> npfloat" where
  "np_mean xs = (if xs = [] then NaN else Num (mean xs))"

section \<open>Feature catalog\<close>

text \<open>
  The module-level dictionary \<open>FEATURE_GROUPS\<close> of
  \<^verbatim>\<open>feature_interpretability_CICIDS.py\<close>. A Python dictionary iterates in insertion
  order, so the catalog is an association list in the order of the literal.
\<close>

definition FEATURE_GROUPS :: "(string \<times> string list) list" where
  "FEATURE_GROUPS = [
    (''Flow Duration'',
      [''Flow Duration'', ''Flow IAT Mean'', ''Flow IAT Std'', ''Flow IAT Max'',
       ''Flow IAT Min'']),
    (''Forward Packets'',
      [''Total Fwd Packets'', ''Fwd Packet Length Max'', ''Fwd Packet Length Min'',
       ''Fwd Packet Length Mean'', ''Fwd Packet Length Std'']),
    (''Backward Packets'',
      [''Total Backward Packets'', ''Bwd Packet Length Max'', ''Bwd Packet Length Min'',
       ''Bwd Packet Length Mean'', ''Bwd Packet Length Std'']),
    (''Flow Rates'',
      [''Flow Bytes/s'', ''Flow Packets/s'', ''Fwd Packets/s'', ''Bwd Packets/s'']),
    (''Packet Timing'',
      [''Fwd IAT Total'', ''Fwd IAT Mean'', ''Fwd IAT Std'', ''Fwd IAT Max'',
       ''Fwd IAT Min'', ''Bwd IAT Total'', ''Bwd IAT Mean'', ''Bwd IAT Std'',
       ''Bwd IAT Max'', ''Bwd IAT Min'']),
    (''TCP Flags'',
      [''FIN Flag Count'', ''SYN Flag Count'', ''RST Flag Count'', ''PSH Flag Count'',
       ''ACK Flag Count'', ''URG Flag Count'', ''CWE Flag Count'', ''ECE Flag Count'',
       ''Fwd PSH Flags'', ''Bwd PSH Flags'', ''Fwd URG Flags'', ''Bwd URG Flags'']),
    (''Header Info'',
      [''Fwd Header Length'', ''Bwd Header Length'']),
    (''Packet Size'',
      [''Min Packet Length'', ''Max Packet Length'', ''Packet Length Mean'',
       ''Packet Length Std'', ''Packet Length Variance'', ''Average Packet Size'']),
    (''Bulk Transfer'',
      [''Fwd Avg Bytes/Bulk'', ''Fwd Avg Packets/Bulk'', ''Fwd Avg Bulk Rate'',
       ''Bwd Avg Bytes/Bulk'', ''Bwd Avg Packets/Bulk'', ''Bwd Avg Bulk Rate'']),
    (''Subflow'',
      [''Subflow Fwd Packets'', ''Subflow Fwd Bytes'', ''Subflow Bwd Packets'',
       ''Subflow Bwd Bytes'']),
    (''Window Size'',
      [''Init_Win_bytes_forward'', ''Init_Win_bytes_backward'', ''act_data_pkt_fwd'',
       ''min_seg_size_forward'']),
    (''Active/Idle'',
      [''Active Mean'', ''Active Std'', ''Active Max'', ''Active Min'', ''Idle Mean'',
       ''Idle Std'', ''Idle Max'', ''Idle Min'']),
    (''Ratios'',
      [''Down/Up Ratio'']),
    (''Engineered - Traffic Volume'',
      [''packets_total'', ''bytes_total'', ''avg_packet_size'']),
    (''Engineered - Asymmetry'',
      [''packet_ratio'', ''byte_ratio'', ''is_asymmetric'']),
    (''Engineered - Connection State'',
      [''connection_completed'', ''connection_failed'']),
    (''Engineered - Network Quality'',
      [''avg_jitter'', ''high_jitter'']),
    (''Engineered - TCP'',
      [''has_tcp_info'', ''window_size_avg'']),
    (''Engineered - Scanning'',
      [''diverse_ports'', ''diverse_src_ports'', ''repeated_connection'']),
    (''Engineered - Response'',
      [''response_body_len'', ''has_response''])
  ]"

text \<open>
  \<^verbatim>\<open>
  all_numeric_features = []
  for group_features in FEATURE_GROUPS.values():
      all_numeric_features.extend(group_features)
  available_features = [f for f in all_numeric_features if f in CICIDS_2017.columns]
  \<close>
\<close>

definition all_numeric_features :: "string list" where
  "all_numeric_features = concat (map snd FEATURE_GROUPS)"

definition available_features :: "string list \<Rightarrow> string list" where
  "available_features cols = filter (\<lambda>f. f \<in> set cols) all_numeric_features"

text \<open>
  \<^verbatim>\<open>
  def get_feature_group(feature):
      for group_name, features in FEATURE_GROUPS.items():
          if feature in features:
              return group_name
      return 'Unknown'
  \<close>
  The loop over the items is a recursion over the association list; the early
  \<open>return\<close> is the first branch.
\<close>

fun group_lookup :: "(string \<times> string list) list \<Rightarrow> string \<Rightarrow> string" where
  "group_lookup [] feature = ''Unknown''"
| "group_lookup ((group_name, features) # rest) feature =
     (if feature \<in> set features then group_name else group_lookup rest feature)"

definition get_feature_group :: "string \<Rightarrow> string" where
  "get_feature_group feature = group_lookup FEATURE_GROUPS feature"

section \<open>The input table and the sampler\<close>

text \<open>
  The table read from the CSV file: the header and the rows, one cell per column
  (\<open>read_csv\<close> renames repeated header names, so the header has no duplicates).
  A cell is a number, an infinity or \<open>nan\<close> (a missing value).
\<close>

record dataframe =
  df_columns :: "string list"
  df_rows :: "npfloat list list"

fun index_of :: "'a list \<Rightarrow> 'a \<Rightarrow> nat" where
  "index_of [] a = 0"
| "index_of (x # xs) a = (if x = a then 0 else Suc (index_of xs a))"

text \<open>\<open>df[name].values\<close>: the cells of one column, \<open>KeyError\<close> for an unknown name.\<close>

definition getitem :: "dataframe \<Rightarrow> string \<Rightarrow> py_error + npfloat list" where
  "getitem df name =
     (if name \<in> set (df_columns df)
      then Inr (map (\<lambda>r. r ! index_of (df_columns df) name) (df_rows df))
      else Inl KeyError)"

text \<open>
  \<^verbatim>\<open>X = CICIDS_2017[available_features].fillna(0).replace([np.inf, -np.inf], 0)\<close>:
  the catalog's columns in catalog order, every missing or infinite cell replaced
  by 0. All cells of \<open>X\<close> are finite, so \<open>X\<close> is a matrix of reals.
\<close>

fun fill :: "npfloat \<Rightarrow> real" where
  "fill (Num x) = x"
| "fill _ = 0"

definition feature_matrix :: "dataframe \<Rightarrow> real list list" where
  "feature_matrix df =
     map (\<lambda>r. map (\<lambda>f. fill (r ! index_of (df_columns df) f))
                (available_features (df_columns df)))
       (df_rows df)"

text \<open>
  \<^verbatim>\<open>
  sample_size = min(50000, len(X))
  sample_idx = np.random.choice(len(X), sample_size, replace=False)
  X_sample = X.iloc[sample_idx]
  y_sample = y[sample_idx]
  \<close>
  \<open>np.random.choice(n, size, replace=False)\<close> belongs to numpy: it returns \<open>size\<close>
  pairwise different positions below \<open>n\<close>, drawn from the process-wide generator.
  \<open>valid_choice\<close> is that contract; which index vector comes out is not decided by
  the script. Positional indexing raises \<open>IndexError\<close> out of range.
\<close>

definition sample_size :: "nat \<Rightarrow> nat" where
  "sample_size n = min 50000 n"

definition valid_choice :: "nat \<Rightarrow> nat \<Rightarrow> nat list \<Rightarrow> bool" where
  "valid_choice n k idx \<longleftrightarrow>
     length idx = k \<and> distinct idx \<and> list_all (\<lambda>i. i < n) idx"

definition take_rows :: "'a list \<Rightarrow> nat list \<Rightarrow> py_error + 'a list" where
  "take_rows xs idx =
     (if list_all (\<lambda>i. i < length xs) idx then Inr (map ((!) xs) idx) else Inl IndexError)"

definition draw_sample ::
  "nat list \<Rightarrow> real list list \<Rightarrow> npfloat list
     \<Rightarrow> py_error + (real list list \<times> npfloat list)" where
  "draw_sample sample_idx X y =
     (case take_rows X sample_idx of
        Inl e \<Rightarrow> Inl e
      | Inr X_sample \<Rightarrow>
          (case take_rows y sample_idx of
             Inl e \<Rightarrow> Inl e
           | Inr y_sample \<Rightarrow> Inr (X_sample, y_sample)))"

section \<open>Library routines\<close>

text \<open>
  The estimators, the random generator and the sort are routines of numpy, scipy,
  scikit-learn and pandas; the script only calls them. They are the fields of a
  record that the model takes as a parameter:
  \<^item> \<open>random_choice g n k\<close> is \<open>np.random.choice(n, k, replace=False)\<close> on the
    process-wide generator in state \<open>g\<close>, with the generator's next state;
  \<^item> \<open>rf_feature_importances g random_state X y\<close> is
    \<open>RandomForestClassifier(n_estimators=100, max_depth=10, random_state, n_jobs=-1)\<close>
    fitted on \<open>(X, y)\<close>, read at \<open>feature_importances_\<close>;
  \<^item> \<open>mutual_info_classif g random_state X y\<close>;
  \<^item> \<open>spearmanr xs ys\<close>, the \<open>statistic\<close> of scipy's result, or the exception raised;
  \<^item> \<open>series_mean xs\<close> and \<open>series_std xs\<close> are \<open>Series.mean()\<close> and \<open>Series.std()\<close>
    of pandas on a column holding the values \<open>xs\<close>, computed in \<open>float64\<close>;
  \<^item> \<open>standard_scaler X\<close> is \<open>StandardScaler().fit_transform(X)\<close>;
  \<^item> \<open>pca_reconstruct g random_state n X\<close> is \<open>fit_transform\<close> followed by
    \<open>inverse_transform\<close> of \<open>PCA(n_components=n, random_state)\<close>;
  \<^item> \<open>argsort_desc keys\<close> is the indexer that \<open>sort_values(..., ascending=False)\<close>
    computes from the key column with its default \<open>kind='quicksort'\<close>.
  A routine given \<open>random_state = None\<close> draws from the process-wide generator;
  that is the only way the state \<open>g\<close> can reach a result.
\<close>

record 'g library =
  random_choice :: "'g \<Rightarrow> nat \<Rightarrow> nat \<Rightarrow> nat list \<times> 'g"
  rf_feature_importances ::
    "'g \<Rightarrow> nat option \<Rightarrow> real list list \<Rightarrow> npfloat list \<Rightarrow> py_error + npfloat list"
  mutual_info_classif ::
    "'g \<Rightarrow> nat option \<Rightarrow> real list list \<Rightarrow> npfloat list \<Rightarrow> py_error + npfloat list"
  spearmanr :: "real list \<Rightarrow> npfloat list \<Rightarrow> py_error + npfloat"
  series_mean :: "real list \<Rightarrow> npfloat"
  series_std :: "real list \<Rightarrow> npfloat"
  standard_scaler :: "real list list \<Rightarrow> py_error + real list list"
  pca_reconstruct ::
    "'g \<Rightarrow> nat option \<Rightarrow> nat \<Rightarrow> real list list \<Rightarrow> py_error + real list list"
  argsort_desc :: "npfloat list \<Rightarrow> nat list"


definition seeded :: "'g library \<Rightarrow> bool" where
  "seeded L \<longleftrightarrow>
     (\<forall>g g' s X y. rf_feature_importances L g (Some s) X y
                    = rf_feature_importances L g' (Some s) X y)
     \<and> (\<forall>g g' s X y. mutual_info_classif L g (Some s) X y
                    = mutual_info_classif L g' (Some s) X y)
     \<and> (\<forall>g g' s n X. pca_reconstruct L g (Some s) n X = pca_reconstruct L g' (Some s) n X)"

definition desc_before :: "npfloat \<Rightarrow> npfloat \<Rightarrow> bool" where
  "desc_before a b \<longleftrightarrow> b = NaN \<or> (a \<noteq> NaN \<and> \<not> np_gt b a)"

definition argsort_spec :: "npfloat list \<Rightarrow> nat list \<Rightarrow> bool" where
  "argsort_spec keys p \<longleftrightarrow>
     mset p = mset [0..<length keys]
     \<and> sorted_wrt (\<lambda>i j. desc_before (keys ! i) (keys ! j)) p"

definition argsort_ok :: "'g library \<Rightarrow> bool" where
  "argsort_ok L \<longleftrightarrow> (\<forall>keys. argsort_spec keys (argsort_desc L keys))"

definition sort_values :: "'g library \<Rightarrow> ('a \<Rightarrow> npfloat) \<Rightarrow> 'a list \<Rightarrow> 'a list" where
  "sort_values L key rows = map ((!) rows) (argsort_desc L (map key rows))"

definition bind_err :: "py_error + 'a \<Rightarrow> ('a \<Rightarrow> py_error + 'b) \<Rightarrow> py_error + 'b" where
  "bind_err m f = (case m of Inl e \<Rightarrow> Inl e | Inr v \<Rightarrow> f v)"

section \<open>Metric estimators\<close>

text \<open>
  \<open>pd.DataFrame({'feature': available_features, 'importance': values})\<close> raises
  \<open>ValueError\<close> unless both columns have the same length.
\<close>

definition make_table :: "string list \<Rightarrow> 'a list \<Rightarrow> py_error + (string \<times> 'a) list" where
  "make_table feats vals =
     (if length vals = length feats then Inr (zip feats vals) else Inl ValueError)"

text \<open>\<open>X_sample[feat]\<close>: the column of a feature, found by its position in the header.\<close>

definition column :: "string list \<Rightarrow> real list list \<Rightarrow> string \<Rightarrow> real list" where
  "column feats X feat = map (\<lambda>r. r ! index_of feats feat) X"

text \<open>
  \<^verbatim>\<open>
  for feat in available_features:
      try:
          corr, _ = spearmanr(X_sample[feat], y_sample)
          correlations.append({'feature': feat, 'correlation': abs(corr)})
      except:
          correlations.append({'feature': feat, 'correlation': 0})
  \<close>
\<close>

definition correlation_of :: "'g library \<Rightarrow> real list \<Rightarrow> npfloat list \<Rightarrow> npfloat" where
  "correlation_of L vals y_sample =
     (case spearmanr L vals y_sample of
        Inl e \<Rightarrow> Num 0
      | Inr corr \<Rightarrow> np_abs corr)"

definition correlations ::
  "'g library \<Rightarrow> string list \<Rightarrow> real list list \<Rightarrow> npfloat list \<Rightarrow> (string \<times> npfloat) list" where
  "correlations L feats X_sample y_sample =
     map (\<lambda>feat. (feat, correlation_of L (column feats X_sample feat) y_sample)) feats"

text \<open>
  \<^verbatim>\<open>
  for feat in available_features:
      benign_vals = X_sample[y_sample == 0][feat]
      attack_vals = X_sample[y_sample == 1][feat]
      pooled_std = np.sqrt(((len(benign_vals)-1)*benign_vals.std()**2 +
                            (len(attack_vals)-1)*attack_vals.std()**2) /
                           (len(benign_vals) + len(attack_vals) - 2))
      if pooled_std > 0:
          cohens_d = abs(benign_vals.mean() - attack_vals.mean()) / pooled_std
      else:
          cohens_d = 0
      separability.append({'feature': feat, 'cohens_d': cohens_d})
  \<close>
  The lengths are Python integers, so \<open>len(...) - 1\<close> can be \<open>-1\<close>; they are
  converted to \<open>float64\<close> exactly. \<open>std() ** 2\<close> is the rounded product of the
  value with itself.
\<close>

definition mask_rows :: "npfloat list \<Rightarrow> real \<Rightarrow> 'a list \<Rightarrow> 'a list" where
  "mask_rows y_sample label X_sample =
     map snd (filter (\<lambda>(l, r). l = Num label) (zip y_sample X_sample))"

definition f64_square :: "npfloat \<Rightarrow> npfloat" where
  "f64_square v = f64_mul v v"

definition pooled_std :: "'g library \<Rightarrow> real list \<Rightarrow> real list \<Rightarrow> npfloat" where
  "pooled_std L benign_vals attack_vals =
     f64_sqrt
       (f64_div
          (f64_add
             (f64_mul (Num (real_of_int (int (length benign_vals) - 1)))
                (f64_square (series_std L benign_vals)))
             (f64_mul (Num (real_of_int (int (length attack_vals) - 1)))
                (f64_square (series_std L attack_vals))))
          (Num (real_of_int (int (length benign_vals) + int (length attack_vals) - 2))))"

definition cohens_d_of :: "'g library \<Rightarrow> real list \<Rightarrow> real list \<Rightarrow> npfloat" where
  "cohens_d_of L benign_vals attack_vals =
     (if np_gt (pooled_std L benign_vals attack_vals) (Num 0)
      then f64_div
             (np_abs (f64_sub (series_mean L benign_vals) (series_mean L attack_vals)))
             (pooled_std L benign_vals attack_vals)
      else Num 0)"

definition separability ::
  "'g library \<Rightarrow> string list \<Rightarrow> real list list \<Rightarrow> npfloat list
     \<Rightarrow> (string \<times> npfloat) list" where
  "separability L feats X_sample y_sample =
     map (\<lambda>feat. (feat,
            cohens_d_of L (column feats (mask_rows y_sample 0 X_sample) feat)
              (column feats (mask_rows y_sample 1 X_sample) feat)))
       feats"

text \<open>
  \<^verbatim>\<open>
  for i, feat in enumerate(available_features):
      mse = np.mean((X_scaled[:, i] - X_reconstructed[:, i]) ** 2)
  \<close>
  Both arrays come from the library with the shape of \<open>X_sample\<close>.
\<close>

definition reconstruction_errors ::
  "string list \<Rightarrow> real list list \<Rightarrow> real list list \<Rightarrow> (string \<times> npfloat) list" where
  "reconstruction_errors feats X_scaled X_reconstructed =
     map (\<lambda>(i, feat).
            (feat, np_mean (map (\<lambda>(a, b). (a - b)\<^sup>2)
                     (zip (map (\<lambda>r. r ! i) X_scaled) (map (\<lambda>r. r ! i) X_reconstructed)))))
       (enumerate 0 feats)"

section \<open>Aggregator\<close>

text \<open>
  \<^verbatim>\<open>
  metrics_combined = (feature_importance
                     .merge(mutual_info, on='feature')
                     .merge(correlation_df, on='feature')
                     .merge(separability_df, on='feature')
                     .merge(reconstruction_df, on='feature'))
  \<close>
  \<open>left.merge(right, on='feature')\<close> is the inner join of pandas: every left row
  is paired with every right row of the same feature name, in the order of the
  left rows; a left row without a partner is dropped.
\<close>

definition merge_on :: "(string \<times> 'a) list \<Rightarrow> (string \<times> 'b) list \<Rightarrow> (string \<times> 'a \<times> 'b) list" where
  "merge_on left right =
     concat (map (\<lambda>(k, a). map (\<lambda>(k', b). (k, a, b)) (filter (\<lambda>(k', b). k' = k) right)) left)"

record metric_row =
  feature :: string
  importance :: npfloat
  mutual_info :: npfloat
  correlation :: npfloat
  cohens_d :: npfloat
  pca_reconstruction_error :: npfloat

definition metrics_combined ::
  "(string \<times> npfloat) list \<Rightarrow> (string \<times> npfloat) list \<Rightarrow> (string \<times> npfloat) list
     \<Rightarrow> (string \<times> npfloat) list \<Rightarrow> (string \<times> npfloat) list \<Rightarrow> metric_row list" where
  "metrics_combined feature_importance mutual_info_df correlation_df separability_df
       reconstruction_df =
     map (\<lambda>(f, (((i, m), c), d), p).
            \<lparr>feature = f, importance = i, mutual_info = m, correlation = c, cohens_d = d,
             pca_reconstruction_error = p\<rparr>)
       (merge_on
          (merge_on (merge_on (merge_on feature_importance mutual_info_df) correlation_df)
             separability_df)
          reconstruction_df)"

text \<open>
  \<^verbatim>\<open>
  for col in ['importance', 'mutual_info', 'correlation', 'cohens_d',
              'pca_reconstruction_error']:
      max_val = metrics_combined[col].max()
      if max_val > 0:
          metrics_combined[f'{col}_norm'] = metrics_combined[col] / max_val
      else:
          metrics_combined[f'{col}_norm'] = 0
  \<close>
\<close>

definition normalize :: "npfloat list \<Rightarrow> npfloat list" where
  "normalize col =
     (if np_gt (series_max col) (Num 0)
      then map (\<lambda>v. np_div v (series_max col)) col
      else map (\<lambda>v. Num 0) col)"

record scored_row = metric_row +
  importance_norm :: npfloat
  mutual_info_norm :: npfloat
  correlation_norm :: npfloat
  cohens_d_norm :: npfloat
  pca_reconstruction_error_norm :: npfloat
  usefulness_score :: npfloat
  combined_score :: npfloat
  feature_group :: string

text \<open>
  \<^verbatim>\<open>
  metrics_combined['usefulness_score'] = (
      0.30 * metrics_combined['importance_norm'] +
      0.25 * metrics_combined['mutual_info_norm'] +
      0.20 * metrics_combined['correlation_norm'] +
      0.25 * metrics_combined['cohens_d_norm'])
  metrics_combined['combined_score'] = (
      0.70 * metrics_combined['usefulness_score'] +
      0.30 * metrics_combined['pca_reconstruction_error_norm'])
  metrics_combined['feature_group'] = metrics_combined['feature'].apply(get_feature_group)
  \<close>
  The sums associate to the left, as Python evaluates them.
\<close>

definition usefulness_of :: "npfloat \<Rightarrow> npfloat \<Rightarrow> npfloat \<Rightarrow> npfloat \<Rightarrow> npfloat" where
  "usefulness_of i m c d =
     np_add
       (np_add (np_add (np_mul (Num (30 / 100)) i) (np_mul (Num (25 / 100)) m))
          (np_mul (Num (20 / 100)) c))
       (np_mul (Num (25 / 100)) d)"

definition combined_of :: "npfloat \<Rightarrow> npfloat \<Rightarrow> npfloat" where
  "combined_of u p = np_add (np_mul (Num (70 / 100)) u) (np_mul (Num (30 / 100)) p)"

definition score_table :: "metric_row list \<Rightarrow> scored_row list" where
  "score_table rows =
     map (\<lambda>k.
            let r = rows ! k;
                i = normalize (map importance rows) ! k;
                m = normalize (map mutual_info rows) ! k;
                c = normalize (map correlation rows) ! k;
                d = normalize (map cohens_d rows) ! k;
                p = normalize (map pca_reconstruction_error rows) ! k;
                u = usefulness_of i m c d
            in \<lparr>feature = feature r, importance = importance r,
                 mutual_info = mutual_info r, correlation = correlation r,
                 cohens_d = cohens_d r,
                 pca_reconstruction_error = pca_reconstruction_error r,
                 importance_norm = i, mutual_info_norm = m, correlation_norm = c,
                 cohens_d_norm = d, pca_reconstruction_error_norm = p,
                 usefulness_score = u, combined_score = combined_of u p,
                 feature_group = get_feature_group (feature r)\<rparr>)
       [0..<length rows]"

section \<open>The pipeline\<close>

text \<open>
  The five estimator tables, in the order of the script. The first four are
  sorted by their metric; \<open>reconstruction_df\<close> is not.
\<close>

definition estimator_tables ::
  "'g library \<Rightarrow> 'g \<Rightarrow> string list \<Rightarrow> real list list \<Rightarrow> npfloat list
     \<Rightarrow> py_error + ((string \<times> npfloat) list \<times> (string \<times> npfloat) list
           \<times> (string \<times> npfloat) list \<times> (string \<times> npfloat) list \<times> (string \<times> npfloat) list)" where
  "estimator_tables L g feats X_sample y_sample =
     bind_err (rf_feature_importances L g (Some 42) X_sample y_sample) (\<lambda>importances.
     bind_err (make_table feats importances) (\<lambda>feature_importance.
     bind_err (mutual_info_classif L g (Some 42) X_sample y_sample) (\<lambda>mi_scores.
     bind_err (make_table feats mi_scores) (\<lambda>mutual_info_df.
     bind_err (standard_scaler L X_sample) (\<lambda>X_scaled.
     bind_err (pca_reconstruct L g (Some 42) (min 20 (length feats)) X_scaled)
       (\<lambda>X_reconstructed.
     Inr (sort_values L snd feature_importance,
          sort_values L snd mutual_info_df,
          sort_values L snd (correlations L feats X_sample y_sample),
          sort_values L snd (separability L feats X_sample y_sample),
          reconstruction_errors feats X_scaled X_reconstructed)))))))"

definition downstream ::
  "'g library \<Rightarrow> 'g \<Rightarrow> string list \<Rightarrow> real list list \<Rightarrow> npfloat list
     \<Rightarrow> py_error + scored_row list" where
  "downstream L g feats X_sample y_sample =
     bind_err (estimator_tables L g feats X_sample y_sample)
       (\<lambda>(feature_importance, mutual_info_df, correlation_df, separability_df,
           reconstruction_df).
          Inr (sort_values L combined_score
                 (score_table
                    (metrics_combined feature_importance mutual_info_df correlation_df
                       separability_df reconstruction_df))))"


section \<open>Notions used in the statements\<close>

definition in_unit :: "npfloat \<Rightarrow> bool" where
  "in_unit v = (case v of Num x \<Rightarrow> 0 \<le> x \<and> x \<le> 1 | _ \<Rightarrow> False)"

definition metric_columns ::
  "((metric_row \<Rightarrow> npfloat) \<times> (scored_row \<Rightarrow> npfloat)) list" where
  "metric_columns =
     [(importance, importance_norm), (mutual_info, mutual_info_norm),
      (correlation, correlation_norm), (cohens_d, cohens_d_norm),
      (pca_reconstruction_error, pca_reconstruction_error_norm)]"

text \<open>A small merged table of two features, for the concrete instances below.\<close>

definition demo_rows :: "metric_row list" where
  "demo_rows =
     [\<lparr>feature = ''Flow Duration'', importance = Num 2, mutual_info = Num 0,
       correlation = Num 1, cohens_d = Num 3, pca_reconstruction_error = Num 1\<rparr>,
      \<lparr>feature = ''SYN Flag Count'', importance = Num 4, mutual_info = Num 0,
       correlation = Num 1, cohens_d = Num 0, pca_reconstruction_error = Num 2\<rparr>]"

text \<open>
  A table of four flows with two catalog columns, the second one constant, for
  the concrete instances.
\<close>

definition demo_df :: dataframe where
  "demo_df =
     \<lparr>df_columns = [''Flow Duration'', ''SYN Flag Count'', ''is_attack''],
      df_rows = [[Num 0, Num 1, Num 0], [Num 1, Num 1, Num 1],
                 [Num 4, Num 1, Num 0], [Num 1, Num 1, Num 1]]\<rparr>"

text \<open>
  A stand-in library for the concrete instances. It meets the contracts stated
  above but computes no real statistics: the draw is a rotation of the positions
  by the generator's state; an estimator reads the generator only when it is
  given no \<open>random_state\<close>; the Spearman routine returns \<open>nan\<close> for a constant
  column without raising, as scipy does; the sort is an insertion sort by
  descending key, \<open>nan\<close> last, that keeps equal keys in their input order.

  Its mean and standard deviation are the \<open>float64\<close> computation of pandas
  (\<open>nanops.nanmean\<close>, \<open>nanops.nanvar\<close>): the sum divided by the count, and the
  square root of the sum of the squared deviations from that mean divided by the
  count less one. The sums add from left to right, as numpy does for fewer than
  eight values.
\<close>

fun insert_desc :: "npfloat list \<Rightarrow> nat \<Rightarrow> nat list \<Rightarrow> nat list" where
  "insert_desc keys i [] = [i]"
| "insert_desc keys i (j # js) =
     (if desc_before (keys ! i) (keys ! j) then i # j # js else j # insert_desc keys i js)"

definition stable_argsort :: "npfloat list \<Rightarrow> nat list" where
  "stable_argsort keys = foldr (insert_desc keys) [0..<length keys] []"

definition f64_sum :: "npfloat list \<Rightarrow> npfloat" where
  "f64_sum vs = foldl f64_add (Num 0) vs"

definition two_pass_mean :: "real list \<Rightarrow> npfloat" where
  "two_pass_mean xs =
     (if xs = [] then NaN else f64_div (f64_sum (map Num xs)) (Num (real (length xs))))"

definition two_pass_std :: "real list \<Rightarrow> npfloat" where
  "two_pass_std xs =
     (if length xs \<le> 1 then NaN
      else f64_sqrt
             (f64_div
                (f64_sum (map (\<lambda>x. f64_square (f64_sub (two_pass_mean xs) (Num x))) xs))
                (Num (real (length xs) - 1))))"

definition demo_noise :: "nat \<Rightarrow> nat option \<Rightarrow> real" where
  "demo_noise g random_state = (case random_state of None \<Rightarrow> real g | Some s \<Rightarrow> real s)"

definition demo_library :: "nat library" where
  "demo_library =
     \<lparr>random_choice = (\<lambda>g n k. (take k (rotate g [0..<n]), Suc g)),
      rf_feature_importances = (\<lambda>g random_state X y.
         Inr (case X of [] \<Rightarrow> [] | r # _ \<Rightarrow> map (\<lambda>v. Num (demo_noise g random_state)) r)),
      mutual_info_classif = (\<lambda>g random_state X y.
         Inr (case X of [] \<Rightarrow> [] | r # _ \<Rightarrow> map (\<lambda>v. Num (demo_noise g random_state)) r)),
      spearmanr = (\<lambda>xs ys. if length xs \<noteq> length ys then Inl ValueError
         else if \<forall>x\<in>set xs. x = hd xs then Inr NaN else Inr (Num 1)),
      series_mean = two_pass_mean,
      series_std = two_pass_std,
      standard_scaler = (\<lambda>X. Inr X),
      pca_reconstruct = (\<lambda>g random_state n X.
         Inr (map (map (\<lambda>v. v + demo_noise g random_state)) X)),
      argsort_desc = stable_argsort\<rparr>"


text \<open>
  The sort that pandas runs for \<open>sort_values(..., ascending=False)\<close> with the
  default \<open>kind='quicksort'\<close>. \<open>nargsort\<close> of pandas sets the \<open>nan\<close> keys aside,
  reverses the others, sorts them in ascending order with numpy's \<open>argsort\<close>,
  reverses the result and appends the positions of the \<open>nan\<close> keys. numpy's
  \<open>quicksort\<close> for \<open>argsort\<close> (\<open>aquicksort\<close> in \<open>npysort/quicksort.cpp\<close>) is an
  introsort on the index array \<open>tosort\<close>: a range of more than 17 entries is
  partitioned around the median of its first, middle and last key, a shorter
  range is sorted by insertion.
  \<^verbatim>\<open>
  while ((pr - pl) > SMALL_QUICKSORT) {          /* SMALL_QUICKSORT is 16 */
      pm = pl + ((pr - pl) >> 1);
      if (LT(v[*pm], v[*pl])) INTP_SWAP(*pm, *pl);
      if (LT(v[*pr], v[*pm])) INTP_SWAP(*pr, *pm);
      if (LT(v[*pm], v[*pl])) INTP_SWAP(*pm, *pl);
      vp = v[*pm];
      pi = pl;
      pj = pr - 1;
      INTP_SWAP(*pm, *pj);
      for (;;) {
          do { ++pi; } while (LT(v[*pi], vp));
          do { --pj; } while (LT(vp, v[*pj]));
          if (pi >= pj) break;
          INTP_SWAP(*pi, *pj);
      }
      pk = pr - 1;
      INTP_SWAP(*pi, *pk);
      /* push largest partition on stack, go on with the other */
      ...
  }
  for (pi = pl + 1; pi <= pr; ++pi) {            /* insertion sort */
      vi = *pi;
      vp = v[vi];
      pj = pi;
      pk = pi - 1;
      while (pj > pl && LT(vp, v[*pk])) { *pj-- = *pk--; }
      *pj = vi;
  }
  \<close>
  The two parts of a partitioned range are disjoint, so the order in which the
  stack hands them out does not matter; the model sorts the left part, then the
  right part. Two things are simplified: the scans stop at the end of the array
  (in C the median keys stop them earlier), and when the depth budget
  \<open>2 * npy_get_msb(num)\<close> is used up the range is finished by the insertion sort,
  where numpy uses a heapsort. The routine is numpy's scalar one; a build of numpy
  that hands \<open>argsort\<close> of \<open>float64\<close> keys to a vectorised sort is not modelled.
\<close>

definition key_less :: "npfloat list \<Rightarrow> nat \<Rightarrow> nat \<Rightarrow> bool" where
  "key_less v a b = np_gt (v ! b) (v ! a)"

definition swap :: "nat list \<Rightarrow> nat \<Rightarrow> nat \<Rightarrow> nat list" where
  "swap tosort a b = tosort[a := tosort ! b, b := tosort ! a]"

function scan_up :: "npfloat list \<Rightarrow> nat list \<Rightarrow> nat \<Rightarrow> nat \<Rightarrow> nat" where
  "scan_up v tosort vp i =
     (if i < length tosort \<and> key_less v (tosort ! i) vp
      then scan_up v tosort vp (Suc i) else i)"
  by pat_completeness auto
termination
  by (relation "measure (\<lambda>(v, tosort, vp, i). length tosort - i)") auto

declare scan_up.simps [simp del]

fun scan_down :: "npfloat list \<Rightarrow> nat list \<Rightarrow> nat \<Rightarrow> nat \<Rightarrow> nat" where
  "scan_down v tosort vp 0 = 0"
| "scan_down v tosort vp (Suc j) =
     (if key_less v vp (tosort ! Suc j) then scan_down v tosort vp j else Suc j)"

function partition_loop ::
  "npfloat list \<Rightarrow> nat \<Rightarrow> nat list \<Rightarrow> nat \<Rightarrow> nat \<Rightarrow> nat list \<times> nat" where
  "partition_loop v vp tosort i j =
     (let i2 = scan_up v tosort vp (Suc i);
          j2 = scan_down v tosort vp (j - 1)
      in if j2 \<le> i2 then (tosort, i2)
         else partition_loop v vp (swap tosort i2 j2) i2 j2)"
  by pat_completeness auto
termination
proof (relation "measure (\<lambda>(v, vp, tosort, i, j). j - i)", goal_cases)
  case 1
  show ?case by simp
next
  case (2 v vp tosort i j i2 j2)
  have up: "a \<le> scan_up w ts q a" for w ts q a
  proof (induction w ts q a rule: scan_up.induct)
    case (1 w ts q a)
    show ?case
    proof (cases "a < length ts \<and> key_less w (ts ! a) q")
      case True
      then have "scan_up w ts q a = scan_up w ts q (Suc a)"
        by (subst scan_up.simps) simp
      with 1 True show ?thesis by simp
    next
      case False
      then have "scan_up w ts q a = a"
        by (subst scan_up.simps) auto
      then show ?thesis by simp
    qed
  qed
  have down: "scan_down w ts q a \<le> a" for w ts q a
    by (induction a) auto
  have "Suc i \<le> i2" using 2(1) up by simp
  moreover have "j2 \<le> j - 1" using 2(2) down by simp
  ultimately show ?case using 2(3) by simp
qed

declare partition_loop.simps [simp del]

definition partition :: "npfloat list \<Rightarrow> nat list \<Rightarrow> nat \<Rightarrow> nat \<Rightarrow> nat list \<times> nat" where
  "partition v tosort pl pr =
     (let pm = pl + (pr - pl) div 2;
          ts1 = (if key_less v (tosort ! pm) (tosort ! pl) then swap tosort pm pl else tosort);
          ts2 = (if key_less v (ts1 ! pr) (ts1 ! pm) then swap ts1 pr pm else ts1);
          ts3 = (if key_less v (ts2 ! pm) (ts2 ! pl) then swap ts2 pm pl else ts2);
          vp = ts3 ! pm;
          (ts4, i) = partition_loop v vp (swap ts3 pm (pr - 1)) pl (pr - 1)
      in (swap ts4 i (pr - 1), i))"

fun shift_right ::
  "npfloat list \<Rightarrow> nat \<Rightarrow> nat \<Rightarrow> nat list \<Rightarrow> nat \<Rightarrow> nat list \<times> nat" where
  "shift_right v pl vi tosort 0 = (tosort, 0)"
| "shift_right v pl vi tosort (Suc pk) =
     (if pl < Suc pk \<and> key_less v vi (tosort ! pk)
      then shift_right v pl vi (tosort[Suc pk := tosort ! pk]) pk
      else (tosort, Suc pk))"

function insertion_sort ::
  "npfloat list \<Rightarrow> nat \<Rightarrow> nat \<Rightarrow> nat \<Rightarrow> nat list \<Rightarrow> nat list" where
  "insertion_sort v pl pr i tosort =
     (if i \<le> pr \<and> i < length tosort
      then let vi = tosort ! i;
               (ts, j) = shift_right v pl vi tosort i
           in insertion_sort v pl pr (Suc i) (ts[j := vi])
      else tosort)"
  by pat_completeness auto
termination
  by (relation "measure (\<lambda>(v, pl, pr, i, tosort). Suc pr - i)") auto

declare insertion_sort.simps [simp del]

fun aquicksort :: "nat \<Rightarrow> npfloat list \<Rightarrow> nat \<Rightarrow> nat \<Rightarrow> nat list \<Rightarrow> nat list" where
  "aquicksort 0 v pl pr tosort = insertion_sort v pl pr (Suc pl) tosort"
| "aquicksort (Suc cdepth) v pl pr tosort =
     (if 16 < pr - pl
      then let (ts, i) = partition v tosort pl pr
           in aquicksort cdepth v (Suc i) pr (aquicksort cdepth v pl (i - 1) ts)
      else insertion_sort v pl pr (Suc pl) tosort)"

function npy_get_msb :: "nat \<Rightarrow> nat" where
  "npy_get_msb n = (if n \<le> 1 then 0 else Suc (npy_get_msb (n div 2)))"
  by pat_completeness auto
termination
  by (relation "measure (\<lambda>n. n)") auto

declare npy_get_msb.simps [simp del]

definition numpy_argsort :: "npfloat list \<Rightarrow> nat list" where
  "numpy_argsort v =
     aquicksort (Suc (2 * npy_get_msb (length v))) v 0 (length v - 1) [0..<length v]"

definition nargsort_desc :: "npfloat list \<Rightarrow> nat list" where
  "nargsort_desc items =
     (let idx = [0..<length items];
          non_nan_idx = rev (filter (\<lambda>k. items ! k \<noteq> NaN) idx);
          non_nans = map ((!) items) non_nan_idx;
          nan_idx = filter (\<lambda>k. items ! k = NaN) idx;
          indexer = rev (map ((!) non_nan_idx) (numpy_argsort non_nans))
      in indexer @ nan_idx)"

definition numpy_library :: "nat library" where
  "numpy_library = demo_library\<lparr>argsort_desc := nargsort_desc\<rparr>"

text \<open>A merged table of twenty features that all have the same metrics.\<close>

definition tied_features :: "string list" where
  "tied_features =
     [''Flow Duration'', ''Flow IAT Mean'', ''Flow IAT Std'', ''Flow IAT Max'',
      ''Flow IAT Min'', ''Total Fwd Packets'', ''Fwd Packet Length Max'',
      ''Fwd Packet Length Min'', ''Fwd Packet Length Mean'', ''Fwd Packet Length Std'',
      ''Total Backward Packets'', ''Bwd Packet Length Max'', ''Bwd Packet Length Min'',
      ''Bwd Packet Length Mean'', ''Bwd Packet Length Std'', ''Flow Bytes/s'',
      ''Flow Packets/s'', ''Fwd Packets/s'', ''Bwd Packets/s'', ''Fwd IAT Total'']"

definition tied_rows :: "metric_row list" where
  "tied_rows =
     map (\<lambda>f. \<lparr>feature = f, importance = Num (1 / 20), mutual_info = Num 1,
               correlation = Num 1, cohens_d = Num 1, pca_reconstruction_error = Num 1\<rparr>)
       tied_features"


section \<open>The group lookup\<close>

lemma group_lookup_first:
  "i < length groups \<Longrightarrow> feat \<in> set (snd (groups ! i)) \<Longrightarrow>
   (\<forall>j<i. feat \<notin> set (snd (groups ! j))) \<Longrightarrow>
   group_lookup groups feat = fst (groups ! i)"
proof (induction groups arbitrary: i)
  case Nil
  then show ?case by simp
next
  case (Cons g rest)
  obtain group_name features where g: "g = (group_name, features)"
    by (cases g)
  show ?case
  proof (cases i)
    case 0
    with Cons.prems g show ?thesis by simp
  next
    case (Suc k)
    from Cons.prems(3) Suc have "feat \<notin> set (snd ((g # rest) ! 0))"
      by blast
    then have notin: "feat \<notin> set features"
      using g by simp
    have "\<forall>j<k. feat \<notin> set (snd (rest ! j))"
    proof (intro allI impI)
      fix j assume "j < k"
      then have "Suc j < i" using Suc by simp
      with Cons.prems(3) have "feat \<notin> set (snd ((g # rest) ! Suc j))"
        by blast
      then show "feat \<notin> set (snd (rest ! j))" by simp
    qed
    with Cons.IH [of k] Cons.prems(1,2) Suc
    have "group_lookup rest feat = fst (rest ! k)"
      by simp
    with notin g Suc show ?thesis by simp
  qed
qed

lemma group_lookup_none:
  "(\<forall>i<length groups. feat \<notin> set (snd (groups ! i))) \<Longrightarrow>
   group_lookup groups feat = ''Unknown''"
proof (induction groups)
  case Nil
  then show ?case by simp
next
  case (Cons g rest)
  obtain group_name features where g: "g = (group_name, features)"
    by (cases g)
  from Cons.prems have "feat \<notin> set (snd ((g # rest) ! 0))"
    by (metis length_greater_0_conv list.distinct(1))
  then have notin: "feat \<notin> set features" using g by simp
  have "\<forall>i<length rest. feat \<notin> set (snd (rest ! i))"
  proof (intro allI impI)
    fix i assume "i < length rest"
    then have "Suc i < length (g # rest)" by simp
    with Cons.prems have "feat \<notin> set (snd ((g # rest) ! Suc i))"
      by blast
    then show "feat \<notin> set (snd (rest ! i))" by simp
  qed
  with Cons.IH have "group_lookup rest feat = ''Unknown''" .
  with notin g show ?case by simp
qed

text \<open>
  C9. For every feature name, \<open>get_feature_group\<close> returns the name of the first
  catalog group, in the order of the catalog's definition, whose column list
  contains the feature, and returns \<open>Unknown\<close> when no group contains it.
\<close>

theorem get_feature_group_first_match:
  "(i < length FEATURE_GROUPS \<and> feat \<in> set (snd (FEATURE_GROUPS ! i)) \<and>
      (\<forall>j<i. feat \<notin> set (snd (FEATURE_GROUPS ! j)))
      \<longrightarrow> get_feature_group feat = fst (FEATURE_GROUPS ! i))
   \<and> ((\<forall>i<length FEATURE_GROUPS. feat \<notin> set (snd (FEATURE_GROUPS ! i)))
      \<longrightarrow> get_feature_group feat = ''Unknown'')"
  unfolding get_feature_group_def
  using group_lookup_first [of i FEATURE_GROUPS feat]
    group_lookup_none [of FEATURE_GROUPS feat]
  by blast

theorem get_feature_group_first_match_witness:
  "get_feature_group ''Flow Bytes/s'' = ''Flow Rates''
   \<and> get_feature_group ''Label'' = ''Unknown''"
proof -
  have len: "(3::nat) < length FEATURE_GROUPS"
    by (simp add: FEATURE_GROUPS_def)
  have third: "FEATURE_GROUPS ! 3 = (''Flow Rates'',
      [''Flow Bytes/s'', ''Flow Packets/s'', ''Fwd Packets/s'', ''Bwd Packets/s''])"
    by (simp add: FEATURE_GROUPS_def)
  have earlier: "\<forall>j<3. ''Flow Bytes/s'' \<notin> set (snd (FEATURE_GROUPS ! j))"
    by (simp add: FEATURE_GROUPS_def numeral_3_eq_3 less_Suc_eq)
  have absent: "\<forall>i<length FEATURE_GROUPS. ''Label'' \<notin> set (snd (FEATURE_GROUPS ! i))"
  proof -
    have "\<forall>g\<in>set FEATURE_GROUPS. ''Label'' \<notin> set (snd g)"
      by (simp add: FEATURE_GROUPS_def)
    then show ?thesis by simp
  qed
  from get_feature_group_first_match [of 3 "''Flow Bytes/s''"] len third earlier
  have "get_feature_group ''Flow Bytes/s'' = ''Flow Rates''" by simp
  moreover from get_feature_group_first_match [of 0 "''Label''"] absent
  have "get_feature_group ''Label'' = ''Unknown''" by blast
  ultimately show ?thesis by simp
qed

section \<open>Arithmetic with \<open>nan\<close>\<close>

lemma np_add_NaN_right [simp]: "np_add x NaN = NaN"
  by (cases x) simp_all

lemma np_mul_NaN_right [simp]: "np_mul x NaN = NaN"
  by (cases x) simp_all

lemma np_div_NaN_right [simp]: "np_div x NaN = NaN"
  by (cases x) simp_all

lemma np_gt_NaN_right [simp]: "np_gt x NaN = False"
  by (cases x) simp_all

section \<open>Rounding to \<open>float64\<close>\<close>

lemma round_half_even_int [simp]: "round_half_even (of_int n) = n"
  by (simp add: round_half_even_def)







section \<open>Effect size\<close>

lemma f64_nan [simp]:
  "f64_add NaN b = NaN" "f64_add a NaN = NaN"
  "f64_mul NaN b = NaN" "f64_mul a NaN = NaN"
  "f64_div NaN b = NaN" "f64_div a NaN = NaN"
  "f64_sqrt NaN = NaN" "f64_square NaN = NaN"
  by (simp_all add: f64_add_def f64_mul_def f64_div_def f64_sqrt_def f64_square_def)











































section \<open>Normalisation\<close>

lemma np_max2_Num [simp]: "np_max2 (Num a) (Num b) = Num (max a b)"
  by (simp add: np_max2_def max_def)

lemma fold_np_max2_Num:
  "fold (\<lambda>w acc. np_max2 acc w) (map Num vs) (Num v) = Num (fold max vs v)"
  by (induction vs arbitrary: v) (simp_all add: max.commute)

lemma series_max_Num:
  assumes "vs \<noteq> []"
  shows "series_max (map Num vs) = Num (Max (set vs))"
proof -
  obtain v ws where vs: "vs = v # ws"
    using assms by (cases vs) auto
  have "filter (\<lambda>v. v \<noteq> NaN) (map Num vs) = map Num vs"
    by (induction vs) simp_all
  then have "series_max (map Num vs) = Num (fold max ws v)"
    by (simp add: series_max_def vs fold_np_max2_Num)
  also have "fold max ws v = Max (set vs)"
    unfolding vs by (rule Max.set_eq_fold [symmetric])
  finally show ?thesis .
qed

lemma normalize_Num:
  assumes "vs \<noteq> []"
  shows "normalize (map Num vs)
    = (if 0 < Max (set vs) then map (\<lambda>v. Num (v / Max (set vs))) vs
       else map (\<lambda>v. Num 0) vs)"
  using assms by (simp add: normalize_def series_max_Num o_def)

lemma length_normalize [simp]: "length (normalize col) = length col"
  by (simp add: normalize_def)

lemma length_score_table [simp]: "length (score_table rows) = length rows"
  by (simp add: score_table_def)

lemma score_table_nth:
  assumes "k < length rows"
  shows "importance_norm (score_table rows ! k) = normalize (map importance rows) ! k"
    and "mutual_info_norm (score_table rows ! k) = normalize (map mutual_info rows) ! k"
    and "correlation_norm (score_table rows ! k) = normalize (map correlation rows) ! k"
    and "cohens_d_norm (score_table rows ! k) = normalize (map cohens_d rows) ! k"
    and "pca_reconstruction_error_norm (score_table rows ! k)
          = normalize (map pca_reconstruction_error rows) ! k"
    and "usefulness_score (score_table rows ! k)
          = usefulness_of (importance_norm (score_table rows ! k))
              (mutual_info_norm (score_table rows ! k))
              (correlation_norm (score_table rows ! k))
              (cohens_d_norm (score_table rows ! k))"
    and "combined_score (score_table rows ! k)
          = combined_of (usefulness_score (score_table rows ! k))
              (pca_reconstruction_error_norm (score_table rows ! k))"
    and "feature (score_table rows ! k) = feature (rows ! k)"
    and "feature_group (score_table rows ! k) = get_feature_group (feature (rows ! k))"
  using assms by (simp_all add: score_table_def Let_def)

lemma norm_column_nth:
  assumes "(raw, nrm) \<in> set metric_columns" "k < length rows"
  shows "nrm (score_table rows ! k) = normalize (map raw rows) ! k"
  using assms by (auto simp: metric_columns_def score_table_nth)


text \<open>
  C3. For each of the five raw metric columns of the merged table, given numeric,
  non-negative raw values: the column's maximum is the greatest raw value; every
  entry of the \<open>_norm\<close> column lies in \<open>[0, 1]\<close>; the \<open>_norm\<close> column is 0
  everywhere exactly when the maximum is 0; and otherwise every entry is the raw
  value divided by the maximum.
\<close>

theorem norm_columns:
  assumes col: "(raw, nrm) \<in> set metric_columns"
    and ne: "rows \<noteq> []"
    and nonneg: "\<forall>r\<in>set rows. \<exists>v. raw r = Num v \<and> 0 \<le> v"
  shows "\<exists>m. series_max (map raw rows) = Num m
      \<and> (\<exists>r\<in>set rows. raw r = Num m)
      \<and> (\<forall>r\<in>set rows. \<forall>v. raw r = Num v \<longrightarrow> v \<le> m)
      \<and> (\<forall>k<length rows. in_unit (nrm (score_table rows ! k)))
      \<and> ((\<forall>k<length rows. nrm (score_table rows ! k) = Num 0) \<longleftrightarrow> m = 0)
      \<and> (m \<noteq> 0 \<longrightarrow>
           (\<forall>k<length rows. \<forall>v. raw (rows ! k) = Num v
              \<longrightarrow> nrm (score_table rows ! k) = Num (v / m)))"
proof -
  define vs where "vs = map (\<lambda>r. fill (raw r)) rows"
  define m where "m = Max (set vs)"
  have vs_ne: "vs \<noteq> []" using ne by (simp add: vs_def)
  have raw_eq: "raw r = Num (fill (raw r))" if "r \<in> set rows" for r
    using nonneg that by force
  have col_eq: "map raw rows = map Num vs"
    unfolding vs_def using raw_eq by simp
  have vs_nonneg: "0 \<le> v" if "v \<in> set vs" for v
    using that nonneg unfolding vs_def by force
  have m_in: "m \<in> set vs"
    unfolding m_def using vs_ne by (intro Max_in) simp_all
  have m_ge: "v \<le> m" if "v \<in> set vs" for v
    unfolding m_def using that by (intro Max_ge) simp_all
  have m_nonneg: "0 \<le> m" using m_in vs_nonneg by blast
  have mx: "series_max (map raw rows) = Num m"
    unfolding col_eq m_def using vs_ne by (rule series_max_Num)
  have len: "length vs = length rows" by (simp add: vs_def)
  have vs_nth: "raw (rows ! k) = Num (vs ! k)" if "k < length rows" for k
    using that raw_eq [of "rows ! k"] by (simp add: vs_def)
  have nrm_eq: "nrm (score_table rows ! k) = Num (if 0 < m then vs ! k / m else 0)"
    if "k < length rows" for k
  proof -
    have "nrm (score_table rows ! k) = normalize (map Num vs) ! k"
      using norm_column_nth [OF col that] col_eq by simp
    also have "\<dots> = Num (if 0 < m then vs ! k / m else 0)"
      using that len vs_ne by (simp add: normalize_Num m_def)
    finally show ?thesis .
  qed
  have "\<exists>r\<in>set rows. raw r = Num m"
  proof -
    from m_in obtain r where "r \<in> set rows" "m = fill (raw r)"
      unfolding vs_def by auto
    with raw_eq [of r] show ?thesis by auto
  qed
  moreover have "\<forall>r\<in>set rows. \<forall>v. raw r = Num v \<longrightarrow> v \<le> m"
  proof (intro ballI allI impI)
    fix r v assume "r \<in> set rows" "raw r = Num v"
    then have "v \<in> set vs" unfolding vs_def by force
    then show "v \<le> m" by (rule m_ge)
  qed
  moreover have "\<forall>k<length rows. in_unit (nrm (score_table rows ! k))"
  proof (intro allI impI)
    fix k assume k: "k < length rows"
    then have "vs ! k \<in> set vs" using len by simp
    then have "0 \<le> vs ! k" "vs ! k \<le> m"
      using vs_nonneg m_ge by blast+
    then show "in_unit (nrm (score_table rows ! k))"
      using k by (simp add: nrm_eq in_unit_def)
  qed
  moreover have "(\<forall>k<length rows. nrm (score_table rows ! k) = Num 0) \<longleftrightarrow> m = 0"
  proof
    assume all0: "\<forall>k<length rows. nrm (score_table rows ! k) = Num 0"
    show "m = 0"
    proof (rule ccontr)
      assume "m \<noteq> 0"
      with m_nonneg have pos: "0 < m" by simp
      from m_in obtain k where k: "k < length vs" "vs ! k = m"
        by (auto simp: in_set_conv_nth)
      with all0 len pos nrm_eq [of k] show False by simp
    qed
  next
    assume "m = 0"
    then show "\<forall>k<length rows. nrm (score_table rows ! k) = Num 0"
      by (simp add: nrm_eq)
  qed
  moreover have "m \<noteq> 0 \<longrightarrow>
      (\<forall>k<length rows. \<forall>v. raw (rows ! k) = Num v
         \<longrightarrow> nrm (score_table rows ! k) = Num (v / m))"
  proof (intro impI allI)
    fix k v
    assume "m \<noteq> 0" and k: "k < length rows" and v: "raw (rows ! k) = Num v"
    with m_nonneg have "0 < m" by simp
    moreover from v vs_nth [OF k] have "vs ! k = v" by simp
    ultimately show "nrm (score_table rows ! k) = Num (v / m)"
      using k by (simp add: nrm_eq)
  qed
  ultimately show ?thesis using mx by blast
qed


theorem norm_columns_witness:
  "importance_norm (score_table demo_rows ! 0) = Num (1 / 2)
   \<and> in_unit (importance_norm (score_table demo_rows ! 1))
   \<and> mutual_info_norm (score_table demo_rows ! 1) = Num 0"
proof -
  have ne: "demo_rows \<noteq> []" by (simp add: demo_rows_def)
  have c1: "(importance, importance_norm) \<in> set metric_columns"
    and c2: "(mutual_info, mutual_info_norm) \<in> set metric_columns"
    by (simp_all add: metric_columns_def)
  have n1: "\<forall>r\<in>set demo_rows. \<exists>v. importance r = Num v \<and> 0 \<le> v"
    and n2: "\<forall>r\<in>set demo_rows. \<exists>v. mutual_info r = Num v \<and> 0 \<le> v"
    by (simp_all add: demo_rows_def)
  have len: "length demo_rows = 2" by (simp add: demo_rows_def)
  from norm_columns [OF c1 ne n1] obtain m where
    m: "series_max (map importance demo_rows) = Num m"
    and unit: "\<forall>k<length demo_rows. in_unit (importance_norm (score_table demo_rows ! k))"
    and quot: "m \<noteq> 0 \<longrightarrow> (\<forall>k<length demo_rows. \<forall>v. importance (demo_rows ! k) = Num v
          \<longrightarrow> importance_norm (score_table demo_rows ! k) = Num (v / m))"
    by blast
  have "series_max (map importance demo_rows) = Num 4"
    by (simp add: demo_rows_def series_max_def)
  with m have m4: "m = 4" by simp
  have "importance (demo_rows ! 0) = Num 2" by (simp add: demo_rows_def)
  with quot m4 len have first: "importance_norm (score_table demo_rows ! 0) = Num (1 / 2)"
    by simp
  from unit len have second: "in_unit (importance_norm (score_table demo_rows ! 1))"
    by simp
  from norm_columns [OF c2 ne n2] obtain m' where
    m': "series_max (map mutual_info demo_rows) = Num m'"
    and zero: "(\<forall>k<length demo_rows. mutual_info_norm (score_table demo_rows ! k) = Num 0)
          \<longleftrightarrow> m' = 0"
    by blast
  have "series_max (map mutual_info demo_rows) = Num 0"
    by (simp add: demo_rows_def series_max_def)
  with m' have "m' = 0" by simp
  with zero len have "mutual_info_norm (score_table demo_rows ! 1) = Num 0"
    by simp
  with first second show ?thesis by simp
qed

section \<open>Composite scores\<close>

lemma usefulness_of_Num:
  "usefulness_of (Num i) (Num m) (Num c) (Num d)
     = Num (30 / 100 * i + 25 / 100 * m + 20 / 100 * c + 25 / 100 * d)"
  by (simp add: usefulness_of_def)

lemma combined_of_Num:
  "combined_of (Num u) (Num p) = Num (70 / 100 * u + 30 / 100 * p)"
  by (simp add: combined_of_def)

lemma in_unit_Num: "in_unit v \<longleftrightarrow> (\<exists>x. v = Num x \<and> 0 \<le> x \<and> x \<le> 1)"
  by (cases v) (simp_all add: in_unit_def)

lemma usefulness_of_unit:
  assumes "in_unit i" "in_unit m" "in_unit c" "in_unit d"
  shows "in_unit (usefulness_of i m c d)"
proof -
  from assms obtain i' m' c' d' where
    eq: "i = Num i'" "m = Num m'" "c = Num c'" "d = Num d'"
    and b: "0 \<le> i'" "i' \<le> 1" "0 \<le> m'" "m' \<le> 1" "0 \<le> c'" "c' \<le> 1" "0 \<le> d'" "d' \<le> 1"
    unfolding in_unit_Num by blast
  from b have "0 \<le> 30 / 100 * i' + 25 / 100 * m' + 20 / 100 * c' + 25 / 100 * d'"
    and "30 / 100 * i' + 25 / 100 * m' + 20 / 100 * c' + 25 / 100 * d' \<le> 1"
    by linarith+
  then show ?thesis
    unfolding eq usefulness_of_Num in_unit_Num by blast
qed

lemma combined_of_unit:
  assumes "in_unit u" "in_unit p"
  shows "in_unit (combined_of u p)"
proof -
  from assms obtain u' p' where eq: "u = Num u'" "p = Num p'"
    and b: "0 \<le> u'" "u' \<le> 1" "0 \<le> p'" "p' \<le> 1"
    unfolding in_unit_Num by blast
  from b have "0 \<le> 70 / 100 * u' + 30 / 100 * p'" and "70 / 100 * u' + 30 / 100 * p' \<le> 1"
    by linarith+
  then show ?thesis
    unfolding eq combined_of_Num in_unit_Num by blast
qed

text \<open>
  C2. For every feature (row) of the scored table, \<open>usefulness_score\<close> is
  \<open>0.30 * importance_norm + 0.25 * mutual_info_norm + 0.20 * correlation_norm
  + 0.25 * cohens_d_norm\<close> and \<open>combined_score\<close> is \<open>0.70 * usefulness_score
  + 0.30 * pca_reconstruction_error_norm\<close>; both scores lie in \<open>[0, 1]\<close> whenever
  the five normalised values of the row lie in \<open>[0, 1]\<close>.
\<close>

theorem scores_convex:
  assumes "k < length rows"
  shows "usefulness_score (score_table rows ! k)
        = usefulness_of (importance_norm (score_table rows ! k))
            (mutual_info_norm (score_table rows ! k))
            (correlation_norm (score_table rows ! k))
            (cohens_d_norm (score_table rows ! k))
    \<and> combined_score (score_table rows ! k)
        = combined_of (usefulness_score (score_table rows ! k))
            (pca_reconstruction_error_norm (score_table rows ! k))
    \<and> (\<forall>i m c d p.
          importance_norm (score_table rows ! k) = Num i
          \<and> mutual_info_norm (score_table rows ! k) = Num m
          \<and> correlation_norm (score_table rows ! k) = Num c
          \<and> cohens_d_norm (score_table rows ! k) = Num d
          \<and> pca_reconstruction_error_norm (score_table rows ! k) = Num p
          \<longrightarrow> usefulness_score (score_table rows ! k)
                = Num (30 / 100 * i + 25 / 100 * m + 20 / 100 * c + 25 / 100 * d)
              \<and> combined_score (score_table rows ! k)
                = Num (70 / 100 * (30 / 100 * i + 25 / 100 * m + 20 / 100 * c + 25 / 100 * d)
                       + 30 / 100 * p))
    \<and> (in_unit (importance_norm (score_table rows ! k))
        \<and> in_unit (mutual_info_norm (score_table rows ! k))
        \<and> in_unit (correlation_norm (score_table rows ! k))
        \<and> in_unit (cohens_d_norm (score_table rows ! k))
        \<and> in_unit (pca_reconstruction_error_norm (score_table rows ! k))
        \<longrightarrow> in_unit (usefulness_score (score_table rows ! k))
            \<and> in_unit (combined_score (score_table rows ! k)))"
proof -
  let ?s = "score_table rows ! k"
  have u: "usefulness_score ?s
        = usefulness_of (importance_norm ?s) (mutual_info_norm ?s) (correlation_norm ?s)
            (cohens_d_norm ?s)"
    and c: "combined_score ?s
        = combined_of (usefulness_score ?s) (pca_reconstruction_error_norm ?s)"
    using assms by (rule score_table_nth)+
  have formula: "usefulness_score ?s
                = Num (30 / 100 * i + 25 / 100 * m + 20 / 100 * c + 25 / 100 * d)
              \<and> combined_score ?s
                = Num (70 / 100 * (30 / 100 * i + 25 / 100 * m + 20 / 100 * c + 25 / 100 * d)
                       + 30 / 100 * p)"
    if "importance_norm ?s = Num i \<and> mutual_info_norm ?s = Num m
        \<and> correlation_norm ?s = Num c \<and> cohens_d_norm ?s = Num d
        \<and> pca_reconstruction_error_norm ?s = Num p" for i m c d p
  proof -
    from that u have "usefulness_score ?s
        = Num (30 / 100 * i + 25 / 100 * m + 20 / 100 * c + 25 / 100 * d)"
      by (simp add: usefulness_of_Num)
    moreover from this that c have "combined_score ?s
        = Num (70 / 100 * (30 / 100 * i + 25 / 100 * m + 20 / 100 * c + 25 / 100 * d)
                       + 30 / 100 * p)"
      by (simp add: combined_of_Num)
    ultimately show ?thesis by simp
  qed
  have bounds: "in_unit (usefulness_score ?s) \<and> in_unit (combined_score ?s)"
    if "in_unit (importance_norm ?s) \<and> in_unit (mutual_info_norm ?s)
        \<and> in_unit (correlation_norm ?s) \<and> in_unit (cohens_d_norm ?s)
        \<and> in_unit (pca_reconstruction_error_norm ?s)"
  proof -
    from that have "in_unit (usefulness_score ?s)"
      unfolding u by (intro usefulness_of_unit) simp_all
    moreover from this that have "in_unit (combined_score ?s)"
      unfolding c by (intro combined_of_unit) simp_all
    ultimately show ?thesis by simp
  qed
  from u c formula bounds show ?thesis by blast
qed

theorem scores_convex_witness:
  "usefulness_score (score_table demo_rows ! 0) = Num (6 / 10)
   \<and> combined_score (score_table demo_rows ! 0) = Num (57 / 100)
   \<and> in_unit (usefulness_score (score_table demo_rows ! 1))
   \<and> in_unit (combined_score (score_table demo_rows ! 1))"
proof -
  have len: "0 < length demo_rows" "1 < length demo_rows"
    by (simp_all add: demo_rows_def)
  have norms0: "importance_norm (score_table demo_rows ! 0) = Num (1 / 2)
     \<and> mutual_info_norm (score_table demo_rows ! 0) = Num 0
     \<and> correlation_norm (score_table demo_rows ! 0) = Num 1
     \<and> cohens_d_norm (score_table demo_rows ! 0) = Num 1
     \<and> pca_reconstruction_error_norm (score_table demo_rows ! 0) = Num (1 / 2)"
    unfolding score_table_nth(1-5) [OF len(1)]
    by (simp add: demo_rows_def normalize_def series_max_def)
  have norms1: "in_unit (importance_norm (score_table demo_rows ! 1))
     \<and> in_unit (mutual_info_norm (score_table demo_rows ! 1))
     \<and> in_unit (correlation_norm (score_table demo_rows ! 1))
     \<and> in_unit (cohens_d_norm (score_table demo_rows ! 1))
     \<and> in_unit (pca_reconstruction_error_norm (score_table demo_rows ! 1))"
    unfolding score_table_nth(1-5) [OF len(2)]
    by (simp add: demo_rows_def normalize_def series_max_def in_unit_def)
  from scores_convex [OF len(1)] norms0
  have "usefulness_score (score_table demo_rows ! 0)
          = Num (30 / 100 * (1 / 2) + 25 / 100 * 0 + 20 / 100 * 1 + 25 / 100 * 1)
      \<and> combined_score (score_table demo_rows ! 0)
          = Num (70 / 100 * (30 / 100 * (1 / 2) + 25 / 100 * 0 + 20 / 100 * 1 + 25 / 100 * 1)
                 + 30 / 100 * (1 / 2))"
    by blast
  then have a: "usefulness_score (score_table demo_rows ! 0) = Num (6 / 10)
      \<and> combined_score (score_table demo_rows ! 0) = Num (57 / 100)"
    by simp
  from scores_convex [OF len(2)] norms1
  have "in_unit (usefulness_score (score_table demo_rows ! 1))
      \<and> in_unit (combined_score (score_table demo_rows ! 1))"
    by blast
  with a show ?thesis by simp
qed

section \<open>Sampler\<close>

lemma length_feature_matrix [simp]: "length (feature_matrix df) = length (df_rows df)"
  by (simp add: feature_matrix_def)

lemma getitem_length: "getitem df name = Inr col \<Longrightarrow> length col = length (df_rows df)"
  by (auto simp: getitem_def split: if_splits)

lemma take_rows_valid:
  "list_all (\<lambda>i. i < length xs) idx \<Longrightarrow> take_rows xs idx = Inr (map ((!) xs) idx)"
  by (simp add: take_rows_def)

text \<open>
  C5. For every input table with \<open>N\<close> rows and every index vector that
  \<open>np.random.choice(N, min(50000, N), replace=False)\<close> can return, the sampler
  returns exactly \<open>min(50000, N)\<close> feature rows and as many labels, no original row
  is drawn twice, and at every sampled position the feature row and the label are
  those of the same original row. (Which admissible index vector is drawn, and
  with what probability, is numpy's part.)
\<close>

theorem sampler_size_alignment:
  assumes y: "getitem df ''is_attack'' = Inr y"
    and idx: "valid_choice (length (df_rows df)) (sample_size (length (df_rows df))) sample_idx"
  shows "\<exists>X_sample y_sample.
      draw_sample sample_idx (feature_matrix df) y = Inr (X_sample, y_sample)
      \<and> length X_sample = min 50000 (length (df_rows df))
      \<and> length y_sample = min 50000 (length (df_rows df))
      \<and> distinct sample_idx
      \<and> (\<forall>i<min 50000 (length (df_rows df)).
           sample_idx ! i < length (df_rows df)
           \<and> X_sample ! i = feature_matrix df ! (sample_idx ! i)
           \<and> y_sample ! i = y ! (sample_idx ! i))"
proof -
  let ?n = "length (df_rows df)"
  from idx have len: "length sample_idx = min 50000 ?n"
    and dist: "distinct sample_idx"
    and below: "list_all (\<lambda>i. i < ?n) sample_idx"
    by (simp_all add: valid_choice_def sample_size_def)
  have ylen: "length y = ?n" using y by (rule getitem_length)
  have X: "take_rows (feature_matrix df) sample_idx
      = Inr (map ((!) (feature_matrix df)) sample_idx)"
    using below by (intro take_rows_valid) simp
  have Y: "take_rows y sample_idx = Inr (map ((!) y) sample_idx)"
    using below ylen by (intro take_rows_valid) simp
  have "draw_sample sample_idx (feature_matrix df) y
      = Inr (map ((!) (feature_matrix df)) sample_idx, map ((!) y) sample_idx)"
    by (simp add: draw_sample_def X Y)
  moreover have "\<forall>i<min 50000 ?n. sample_idx ! i < ?n
      \<and> map ((!) (feature_matrix df)) sample_idx ! i = feature_matrix df ! (sample_idx ! i)
      \<and> map ((!) y) sample_idx ! i = y ! (sample_idx ! i)"
    using below len by (simp add: list_all_length)
  ultimately show ?thesis using len dist by simp
qed

theorem sampler_size_alignment_witness:
  "\<exists>X_sample y_sample.
      draw_sample [2, 0, 3, 1] (feature_matrix demo_df) [Num 0, Num 1, Num 0, Num 1]
        = Inr (X_sample, y_sample)
      \<and> length X_sample = 4 \<and> length y_sample = 4
      \<and> X_sample ! 0 = feature_matrix demo_df ! 2 \<and> y_sample ! 0 = Num 0
      \<and> X_sample ! 1 = feature_matrix demo_df ! 0 \<and> y_sample ! 1 = Num 0
      \<and> X_sample ! 2 = feature_matrix demo_df ! 3 \<and> y_sample ! 2 = Num 1"
proof -
  have y: "getitem demo_df ''is_attack'' = Inr [Num 0, Num 1, Num 0, Num 1]"
    by (simp add: getitem_def demo_df_def)
  have idx: "valid_choice (length (df_rows demo_df)) (sample_size (length (df_rows demo_df)))
      [2, 0, 3, 1]"
    by (simp add: valid_choice_def sample_size_def demo_df_def)
  have n: "min 50000 (length (df_rows demo_df)) = 4"
    by (simp add: demo_df_def)
  from sampler_size_alignment [OF y idx] obtain X_sample y_sample where
    r: "draw_sample [2, 0, 3, 1] (feature_matrix demo_df) [Num 0, Num 1, Num 0, Num 1]
        = Inr (X_sample, y_sample)"
    and l: "length X_sample = 4" "length y_sample = 4"
    and a: "\<forall>i<4. [2, 0, 3, 1] ! i < length (df_rows demo_df)
           \<and> X_sample ! i = feature_matrix demo_df ! ([2, 0, 3, 1] ! i)
           \<and> y_sample ! i = [Num 0, Num 1, Num 0, Num 1] ! ([2, 0, 3, 1] ! i)"
    unfolding n by blast
  from a have "X_sample ! 0 = feature_matrix demo_df ! 2 \<and> y_sample ! 0 = Num 0"
    by (elim allE [of _ 0]) simp
  moreover from a have "X_sample ! 1 = feature_matrix demo_df ! 0 \<and> y_sample ! 1 = Num 0"
    by (elim allE [of _ 1]) simp
  moreover from a have "X_sample ! 2 = feature_matrix demo_df ! 3 \<and> y_sample ! 2 = Num 1"
    by (elim allE [of _ 2]) simp
  ultimately show ?thesis using r l by blast
qed

section \<open>The descending sort\<close>

lemma desc_before_total: "desc_before a b \<or> desc_before b a"
  by (cases a; cases b) (auto simp: desc_before_def)

lemma desc_before_trans: "desc_before a b \<Longrightarrow> desc_before b c \<Longrightarrow> desc_before a c"
  by (cases a; cases b; cases c) (auto simp: desc_before_def)

lemma mset_insert_desc: "mset (insert_desc keys i js) = add_mset i (mset js)"
  by (induction js) simp_all

lemma set_insert_desc: "set (insert_desc keys i js) = insert i (set js)"
  by (induction js) auto

lemma sorted_insert_desc:
  "sorted_wrt (\<lambda>i j. desc_before (keys ! i) (keys ! j)) js \<Longrightarrow>
   sorted_wrt (\<lambda>i j. desc_before (keys ! i) (keys ! j)) (insert_desc keys i js)"
proof (induction js)
  case Nil
  then show ?case by simp
next
  case (Cons j js)
  show ?case
  proof (cases "desc_before (keys ! i) (keys ! j)")
    case True
    with Cons.prems show ?thesis
      by (auto intro: desc_before_trans)
  next
    case False
    then have "desc_before (keys ! j) (keys ! i)"
      using desc_before_total by blast
    with False Cons show ?thesis
      by (auto simp: set_insert_desc)
  qed
qed

lemma stable_argsort_spec: "argsort_spec keys (stable_argsort keys)"
proof -
  have "mset (foldr (insert_desc keys) is []) = mset is" for "is"
    by (induction "is") (simp_all add: mset_insert_desc)
  moreover have "sorted_wrt (\<lambda>i j. desc_before (keys ! i) (keys ! j))
      (foldr (insert_desc keys) is [])" for "is"
    by (induction "is") (simp_all add: sorted_insert_desc)
  ultimately show ?thesis
    by (simp add: argsort_spec_def stable_argsort_def)
qed

lemma demo_library_argsort_ok: "argsort_ok demo_library"
  by (simp add: argsort_ok_def demo_library_def stable_argsort_spec)

lemma demo_library_seeded: "seeded demo_library"
  by (simp add: seeded_def demo_library_def demo_noise_def split: list.splits)

lemma mset_sort_values:
  assumes "argsort_ok L"
  shows "mset (sort_values L key rows) = mset rows"
proof -
  from assms have "mset (argsort_desc L (map key rows)) = mset [0..<length rows]"
    by (simp add: argsort_ok_def argsort_spec_def)
  then have "image_mset ((!) rows) (mset (argsort_desc L (map key rows)))
      = image_mset ((!) rows) (mset [0..<length rows])"
    by simp
  then have "mset (map ((!) rows) (argsort_desc L (map key rows)))
      = mset (map ((!) rows) [0..<length rows])"
    by simp
  then show ?thesis by (simp add: sort_values_def map_nth)
qed

section \<open>Merging the estimator tables\<close>

lemma distinct_all_numeric_features: "distinct all_numeric_features"
  by (simp add: all_numeric_features_def FEATURE_GROUPS_def)

lemma distinct_available_features: "distinct (available_features cols)"
  by (simp add: available_features_def distinct_all_numeric_features)

lemma filter_key_unique:
  "distinct (map fst right) \<Longrightarrow> k \<in> fst ` set right \<Longrightarrow>
   \<exists>b. filter (\<lambda>(k', b). k' = k) right = [(k, b)]"
proof (induction right)
  case Nil
  then show ?case by simp
next
  case (Cons p right)
  obtain k' b' where p: "p = (k', b')" by (cases p)
  show ?case
  proof (cases "k' = k")
    case True
    with Cons.prems p have "k \<notin> fst ` set right" by simp
    then have "filter (\<lambda>(k', b). k' = k) right = []"
      by (force simp: filter_empty_conv)
    with True p show ?thesis by simp
  next
    case False
    with Cons p show ?thesis by auto
  qed
qed

lemma merge_on_Cons:
  "merge_on ((k, a) # left) right
     = map (\<lambda>(k', b). (k, a, b)) (filter (\<lambda>(k', b). k' = k) right) @ merge_on left right"
  by (simp add: merge_on_def)

lemma merge_on_keys:
  assumes "distinct (map fst right)"
  shows "fst ` set left \<subseteq> fst ` set right \<Longrightarrow>
    map fst (merge_on left right) = map fst left"
proof (induction left)
  case Nil
  show ?case by (simp add: merge_on_def)
next
  case (Cons p left)
  obtain k a where p: "p = (k, a)" by (cases p)
  from Cons.prems have k: "k \<in> fst ` set right" and sub: "fst ` set left \<subseteq> fst ` set right"
    unfolding p by simp_all
  from filter_key_unique [OF assms k] obtain b
    where f: "filter (\<lambda>(k', b). k' = k) right = [(k, b)]" ..
  from sub have IH: "map fst (merge_on left right) = map fst left"
    by (rule Cons.IH)
  show ?case
    unfolding p merge_on_Cons f by (simp add: IH)
qed

lemma one_record_per_feature:
  assumes "distinct feats" "mset (map fst t) = mset feats"
  shows "distinct (map fst t)" and "fst ` set t = set feats"
proof -
  from assms show "distinct (map fst t)"
    by (metis mset_eq_imp_distinct_iff)
  from assms(2) have "set (map fst t) = set feats"
    by (rule mset_eq_setD)
  then show "fst ` set t = set feats" by simp
qed

lemma same_keys:
  assumes "map fst xs = map fst ys"
  shows "fst ` set xs = fst ` set ys"
proof -
  have "set (map fst xs) = set (map fst ys)"
    by (simp only: assms)
  then show ?thesis by simp
qed

lemma metrics_combined_features:
  assumes d: "distinct feats"
    and t: "mset (map fst t1) = mset feats" "mset (map fst t2) = mset feats"
      "mset (map fst t3) = mset feats" "mset (map fst t4) = mset feats"
      "mset (map fst t5) = mset feats"
  shows "map feature (metrics_combined t1 t2 t3 t4 t5) = map fst t1"
proof -
  note r = one_record_per_feature [OF d]
  have m2: "map fst (merge_on t1 t2) = map fst t1"
    using r [OF t(1)] r [OF t(2)] by (intro merge_on_keys) simp_all
  then have s2: "fst ` set (merge_on t1 t2) = set feats"
    using r(2) [OF t(1)] same_keys by blast
  have m3: "map fst (merge_on (merge_on t1 t2) t3) = map fst t1"
    using s2 r [OF t(3)] m2 by (subst merge_on_keys) simp_all
  then have s3: "fst ` set (merge_on (merge_on t1 t2) t3) = set feats"
    using r(2) [OF t(1)] same_keys by blast
  have m4: "map fst (merge_on (merge_on (merge_on t1 t2) t3) t4) = map fst t1"
    using s3 r [OF t(4)] m3 by (subst merge_on_keys) simp_all
  then have s4: "fst ` set (merge_on (merge_on (merge_on t1 t2) t3) t4) = set feats"
    using r(2) [OF t(1)] same_keys by blast
  have m5: "map fst (merge_on (merge_on (merge_on (merge_on t1 t2) t3) t4) t5) = map fst t1"
    using s4 r [OF t(5)] m4 by (subst merge_on_keys) simp_all
  have "map feature (metrics_combined t1 t2 t3 t4 t5)
      = map fst (merge_on (merge_on (merge_on (merge_on t1 t2) t3) t4) t5)"
    by (simp add: metrics_combined_def case_prod_beta o_def)
  with m5 show ?thesis by simp
qed


lemma make_table_keys: "make_table feats vals = Inr t \<Longrightarrow> map fst t = feats"
  by (auto simp: make_table_def split: if_splits)

lemma correlations_keys: "map fst (correlations L feats X y) = feats"
  by (simp add: correlations_def o_def)

lemma separability_keys: "map fst (separability L feats X y) = feats"
  by (simp add: separability_def o_def)

lemma reconstruction_errors_keys: "map fst (reconstruction_errors feats A B) = feats"
proof -
  have "map fst (reconstruction_errors feats A B) = map snd (enumerate 0 feats)"
    by (simp add: reconstruction_errors_def case_prod_beta o_def)
  also have "\<dots> = feats"
    by (simp add: enumerate_eq_zip)
  finally show ?thesis .
qed

lemma estimator_tables_keys:
  assumes ok: "argsort_ok L"
    and tabs: "estimator_tables L g feats X y = Inr (t1, t2, t3, t4, t5)"
  shows "mset (map fst t1) = mset feats" "mset (map fst t2) = mset feats"
    "mset (map fst t3) = mset feats" "mset (map fst t4) = mset feats"
    "mset (map fst t5) = mset feats"
proof -
  from tabs obtain imp mi f1 f2 A B where
    f1: "make_table feats imp = Inr f1" and f2: "make_table feats mi = Inr f2"
    and t1: "t1 = sort_values L snd f1" and t2: "t2 = sort_values L snd f2"
    and t3: "t3 = sort_values L snd (correlations L feats X y)"
    and t4: "t4 = sort_values L snd (separability L feats X y)"
    and t5: "t5 = reconstruction_errors feats A B"
    by (auto simp: estimator_tables_def bind_err_def split: sum.splits)
  have perm: "mset (map fst (sort_values L snd t)) = mset (map fst t)"
    for t :: "(string \<times> npfloat) list"
    using mset_sort_values [OF ok, of snd t] by (metis mset_map)
  show "mset (map fst t1) = mset feats"
    unfolding t1 perm using make_table_keys [OF f1] by simp
  show "mset (map fst t2) = mset feats"
    unfolding t2 perm using make_table_keys [OF f2] by simp
  show "mset (map fst t3) = mset feats"
    unfolding t3 perm by (simp add: correlations_keys)
  show "mset (map fst t4) = mset feats"
    unfolding t4 perm by (simp add: separability_keys)
  show "mset (map fst t5) = mset feats"
    unfolding t5 by (simp add: reconstruction_errors_keys)
qed

text \<open>
  C8. Each of the five estimator tables holds exactly one record per feature of
  \<open>available_features\<close> (whose entries are pairwise different), and the inner
  join of the five tables on the feature name holds every feature of
  \<open>available_features\<close> exactly once: the merge drops no feature.
\<close>

theorem merge_retains_available_features:
  assumes "argsort_ok L"
    and "estimator_tables L g (available_features cols) X_sample y_sample
          = Inr (t1, t2, t3, t4, t5)"
  shows "distinct (available_features cols)
    \<and> mset (map fst t1) = mset (available_features cols)
    \<and> mset (map fst t2) = mset (available_features cols)
    \<and> mset (map fst t3) = mset (available_features cols)
    \<and> mset (map fst t4) = mset (available_features cols)
    \<and> mset (map fst t5) = mset (available_features cols)
    \<and> mset (map feature (metrics_combined t1 t2 t3 t4 t5)) = mset (available_features cols)"
proof -
  note k = estimator_tables_keys [OF assms]
  have "map feature (metrics_combined t1 t2 t3 t4 t5) = map fst t1"
    using distinct_available_features k by (rule metrics_combined_features)
  then have "mset (map feature (metrics_combined t1 t2 t3 t4 t5)) = mset (map fst t1)"
    by (simp only:)
  with k distinct_available_features show ?thesis by simp
qed

lemma demo_available_features:
  "available_features (df_columns demo_df) = [''Flow Duration'', ''SYN Flag Count'']"
  by (simp add: available_features_def all_numeric_features_def FEATURE_GROUPS_def
      demo_df_def)

lemma demo_feature_matrix: "feature_matrix demo_df = [[0, 1], [1, 1], [4, 1], [1, 1]]"
  unfolding feature_matrix_def demo_available_features
  by (simp add: demo_df_def)

theorem merge_retains_available_features_witness:
  "\<exists>t1 t2 t3 t4 t5.
      estimator_tables demo_library 0 (available_features (df_columns demo_df))
          (feature_matrix demo_df) [Num 0, Num 1, Num 0, Num 1]
        = Inr (t1, t2, t3, t4, t5)
      \<and> mset (map feature (metrics_combined t1 t2 t3 t4 t5))
          = {#''Flow Duration'', ''SYN Flag Count''#}"
proof -
  obtain t1 t2 t3 t4 t5 where
    t: "estimator_tables demo_library 0 (available_features (df_columns demo_df))
          (feature_matrix demo_df) [Num 0, Num 1, Num 0, Num 1]
        = Inr (t1, t2, t3, t4, t5)"
    unfolding demo_available_features demo_feature_matrix
    by (simp add: estimator_tables_def bind_err_def demo_library_def make_table_def)
  from merge_retains_available_features [OF demo_library_argsort_ok t]
  have "mset (map feature (metrics_combined t1 t2 t3 t4 t5))
      = mset (available_features (df_columns demo_df))"
    by blast
  then have "mset (map feature (metrics_combined t1 t2 t3 t4 t5))
      = {#''Flow Duration'', ''SYN Flag Count''#}"
    unfolding demo_available_features by simp
  with t show ?thesis by blast
qed

section \<open>Correlation with the label\<close>

lemma correlations_entry:
  "(feat, v) \<in> set (correlations L feats X_sample y_sample) \<longleftrightarrow>
   feat \<in> set feats \<and> v = correlation_of L (column feats X_sample feat) y_sample"
  by (auto simp: correlations_def)

text \<open>
  C1 (not met by the code). The fallback value 0 is recorded only when the
  Spearman routine raises. When the routine returns \<open>nan\<close> without raising, which
  is what scipy does for a column that is constant within the sample, the
  \<open>except\<close> branch is not taken and \<open>abs(nan) = nan\<close> is recorded for the feature,
  not 0.
\<close>

theorem correlation_nan_recorded:
  assumes "feat \<in> set feats"
  shows "(spearmanr L (column feats X_sample feat) y_sample = Inr NaN \<longrightarrow>
            (feat, NaN) \<in> set (correlations L feats X_sample y_sample)
            \<and> (feat, Num 0) \<notin> set (correlations L feats X_sample y_sample))
    \<and> ((\<exists>e. spearmanr L (column feats X_sample feat) y_sample = Inl e) \<longrightarrow>
            (feat, Num 0) \<in> set (correlations L feats X_sample y_sample))"
  using assms by (auto simp: correlations_entry correlation_of_def)

theorem correlation_nan_recorded_witness:
  "column [''Flow Duration'', ''SYN Flag Count''] [[0, 1], [1, 1], [4, 1], [1, 1]]
       ''SYN Flag Count'' = [1, 1, 1, 1]
   \<and> (''SYN Flag Count'', NaN)
       \<in> set (correlations demo_library [''Flow Duration'', ''SYN Flag Count'']
                [[0, 1], [1, 1], [4, 1], [1, 1]] [Num 0, Num 1, Num 0, Num 1])
   \<and> (''SYN Flag Count'', Num 0)
       \<notin> set (correlations demo_library [''Flow Duration'', ''SYN Flag Count'']
                [[0, 1], [1, 1], [4, 1], [1, 1]] [Num 0, Num 1, Num 0, Num 1])"
proof -
  have c: "column [''Flow Duration'', ''SYN Flag Count''] [[0, 1], [1, 1], [4, 1], [1, 1]]
       ''SYN Flag Count'' = [1, 1, 1, 1]"
    by (simp add: column_def)
  have f: "''SYN Flag Count'' \<in> set [''Flow Duration'', ''SYN Flag Count'']"
    by simp
  have n: "spearmanr demo_library
      (column [''Flow Duration'', ''SYN Flag Count''] [[0, 1], [1, 1], [4, 1], [1, 1]]
         ''SYN Flag Count'') [Num 0, Num 1, Num 0, Num 1] = Inr NaN"
    unfolding c by (simp add: demo_library_def)
  from correlation_nan_recorded [OF f, of demo_library "[[0, 1], [1, 1], [4, 1], [1, 1]]"
      "[Num 0, Num 1, Num 0, Num 1]"] n c
  show ?thesis by blast
qed

section \<open>The final ordering\<close>

lemma sorted_sort_values:
  assumes "argsort_ok L"
  shows "sorted_wrt (\<lambda>a b. desc_before (key a) (key b)) (sort_values L key rows)"
proof -
  let ?p = "argsort_desc L (map key rows)"
  from assms have perm: "mset ?p = mset [0..<length rows]"
    and srt: "sorted_wrt (\<lambda>i j. desc_before (map key rows ! i) (map key rows ! j)) ?p"
    by (simp_all add: argsort_ok_def argsort_spec_def)
  from perm have "set ?p = set [0..<length rows]"
    by (rule mset_eq_setD)
  then have below: "i < length rows" if "i \<in> set ?p" for i
    using that by simp
  have "sorted_wrt (\<lambda>i j. desc_before (key (rows ! i)) (key (rows ! j))) ?p"
    using srt by (rule sorted_wrt_mono_rel [rotated]) (simp add: below)
  then show ?thesis
    by (simp add: sort_values_def sorted_wrt_map)
qed

lemma downstream_Inr:
  assumes "downstream L g feats X_sample y_sample = Inr ranking"
  shows "\<exists>t1 t2 t3 t4 t5.
      estimator_tables L g feats X_sample y_sample = Inr (t1, t2, t3, t4, t5)
      \<and> ranking = sort_values L combined_score
                    (score_table (metrics_combined t1 t2 t3 t4 t5))"
proof (cases "estimator_tables L g feats X_sample y_sample")
  case (Inl e)
  with assms show ?thesis by (simp add: downstream_def bind_err_def)
next
  case (Inr tables)
  obtain t1 t2 t3 t4 t5 where "tables = (t1, t2, t3, t4, t5)"
    by (cases tables) auto
  with Inr assms show ?thesis by (simp add: downstream_def bind_err_def)
qed

text \<open>
  C6, as the code has it. Whenever the pipeline downstream of the sample returns
  a ranking, the ranking is a permutation of the scored merged table in
  non-increasing order of \<open>combined_score\<close>, \<open>nan\<close> scores last. Nothing is said
  about features with equal scores: the script asks for pandas' default sort,
  which is not stable.
\<close>

theorem final_ordering_descending:
  assumes "argsort_ok L"
    and "downstream L g feats X_sample y_sample = Inr ranking"
  shows "(\<exists>t1 t2 t3 t4 t5.
        estimator_tables L g feats X_sample y_sample = Inr (t1, t2, t3, t4, t5)
        \<and> mset ranking = mset (score_table (metrics_combined t1 t2 t3 t4 t5)))
    \<and> sorted_wrt (\<lambda>a b. desc_before (combined_score a) (combined_score b)) ranking
    \<and> (\<forall>i j x y. i < j \<and> j < length ranking
          \<and> combined_score (ranking ! i) = Num x \<and> combined_score (ranking ! j) = Num y
          \<longrightarrow> y \<le> x)"
proof -
  from downstream_Inr [OF assms(2)] obtain t1 t2 t3 t4 t5 where
    tabs: "estimator_tables L g feats X_sample y_sample = Inr (t1, t2, t3, t4, t5)"
    and r: "ranking = sort_values L combined_score
                        (score_table (metrics_combined t1 t2 t3 t4 t5))"
    by blast
  have perm: "mset ranking = mset (score_table (metrics_combined t1 t2 t3 t4 t5))"
    unfolding r using assms(1) by (rule mset_sort_values)
  have srt: "sorted_wrt (\<lambda>a b. desc_before (combined_score a) (combined_score b)) ranking"
    unfolding r using assms(1) by (rule sorted_sort_values)
  have "y \<le> x" if "i < j \<and> j < length ranking \<and> combined_score (ranking ! i) = Num x
      \<and> combined_score (ranking ! j) = Num y" for i j x y
  proof -
    from that have "i < j" "j < length ranking" by simp_all
    with srt have "desc_before (combined_score (ranking ! i)) (combined_score (ranking ! j))"
      by (rule sorted_wrt_nth_less)
    with that show ?thesis by (simp add: desc_before_def)
  qed
  with tabs perm srt show ?thesis by blast
qed

theorem final_ordering_descending_witness:
  "\<exists>ranking.
      downstream demo_library 0 [''Flow Duration'', ''SYN Flag Count'']
          [[0, 1], [1, 1], [4, 1], [1, 1]] [Num 0, Num 1, Num 0, Num 1] = Inr ranking
      \<and> sorted_wrt (\<lambda>a b. desc_before (combined_score a) (combined_score b)) ranking"
proof -
  obtain ranking where
    r: "downstream demo_library 0 [''Flow Duration'', ''SYN Flag Count'']
          [[0, 1], [1, 1], [4, 1], [1, 1]] [Num 0, Num 1, Num 0, Num 1] = Inr ranking"
    by (simp add: downstream_def estimator_tables_def bind_err_def demo_library_def
        make_table_def)
  from final_ordering_descending [OF demo_library_argsort_ok r]
  have "sorted_wrt (\<lambda>a b. desc_before (combined_score a) (combined_score b)) ranking"
    by blast
  with r show ?thesis by blast
qed

lemma replicate_twenty: "replicate 20 x = replicate 10 x @ replicate 10 x"
  by (simp add: replicate_add [symmetric])

lemma tied_scores:
  "map combined_score (score_table tied_rows) = replicate 20 (Num 1)"
  "map feature (score_table tied_rows) = tied_features"
  by (simp_all add: score_table_def tied_rows_def tied_features_def normalize_def
      series_max_def usefulness_of_def combined_of_def upt_rec Let_def
      replicate_twenty numeral_eq_Suc)

lemma tied_indexer:
  "nargsort_desc (replicate 20 (Num 1))
     = [0, 1, 18, 17, 16, 15, 14, 13, 12, 11, 10, 9, 8, 7, 6, 5, 4, 3, 2, 19]"
  by code_simp

text \<open>
  The stable order of C6 does not hold of the code. In the merged table
  \<open>tied_rows\<close> all twenty features have the same \<open>combined_score\<close>. The sort that
  line 166 runs on it partitions the twenty keys once, which exchanges equal
  keys, and the sorted table lists the features that were at positions 2 to 18 of
  the merged table in reverse order.
\<close>

theorem stable_sort_counterexample:
  "map feature (score_table tied_rows) = tied_features
   \<and> map combined_score (score_table tied_rows) = replicate 20 (Num 1)
   \<and> map feature (sort_values numpy_library combined_score (score_table tied_rows))
       = [''Flow Duration'', ''Flow IAT Mean'', ''Bwd Packets/s'', ''Fwd Packets/s'',
          ''Flow Packets/s'', ''Flow Bytes/s'', ''Bwd Packet Length Std'',
          ''Bwd Packet Length Mean'', ''Bwd Packet Length Min'', ''Bwd Packet Length Max'',
          ''Total Backward Packets'', ''Fwd Packet Length Std'', ''Fwd Packet Length Mean'',
          ''Fwd Packet Length Min'', ''Fwd Packet Length Max'', ''Total Fwd Packets'',
          ''Flow IAT Min'', ''Flow IAT Max'', ''Flow IAT Std'', ''Fwd IAT Total'']"
proof -
  have len: "length (score_table tied_rows) = 20"
    by (simp add: tied_rows_def tied_features_def)
  have idx: "argsort_desc numpy_library (map combined_score (score_table tied_rows))
      = [0, 1, 18, 17, 16, 15, 14, 13, 12, 11, 10, 9, 8, 7, 6, 5, 4, 3, 2, 19]"
    unfolding tied_scores by (simp add: numpy_library_def tied_indexer)
  have "map feature (sort_values numpy_library combined_score (score_table tied_rows))
      = map ((!) (map feature (score_table tied_rows)))
          [0, 1, 18, 17, 16, 15, 14, 13, 12, 11, 10, 9, 8, 7, 6, 5, 4, 3, 2, 19]"
    unfolding sort_values_def idx using len by simp
  also have "\<dots> = [''Flow Duration'', ''Flow IAT Mean'', ''Bwd Packets/s'', ''Fwd Packets/s'',
          ''Flow Packets/s'', ''Flow Bytes/s'', ''Bwd Packet Length Std'',
          ''Bwd Packet Length Mean'', ''Bwd Packet Length Min'', ''Bwd Packet Length Max'',
          ''Total Backward Packets'', ''Fwd Packet Length Std'', ''Fwd Packet Length Mean'',
          ''Fwd Packet Length Min'', ''Fwd Packet Length Max'', ''Total Fwd Packets'',
          ''Flow IAT Min'', ''Flow IAT Max'', ''Flow IAT Std'', ''Fwd IAT Total'']"
    unfolding tied_scores by (simp add: tied_features_def)
  finally show ?thesis
    using tied_scores by simp
qed

section \<open>Determinism downstream of the sample\<close>

lemma estimator_tables_seed_free:
  assumes "seeded L"
  shows "estimator_tables L g feats X y = estimator_tables L g' feats X y"
proof -
  from assms have
    "rf_feature_importances L g (Some 42) X y = rf_feature_importances L g' (Some 42) X y"
    "mutual_info_classif L g (Some 42) X y = mutual_info_classif L g' (Some 42) X y"
    "\<And>A. pca_reconstruct L g (Some 42) (min 20 (length feats)) A
        = pca_reconstruct L g' (Some 42) (min 20 (length feats)) A"
    unfolding seeded_def by blast+
  then show ?thesis
    unfolding estimator_tables_def by (simp only:)
qed

lemma downstream_seed_free:
  assumes "seeded L"
  shows "downstream L g feats X y = downstream L g' feats X y"
  unfolding downstream_def estimator_tables_seed_free [OF assms, of g feats X y g'] ..

text \<open>
  C10. For a fixed sampled feature matrix and label vector the downstream
  pipeline does not depend on the state of the process-wide random generator:
  the random forest, the mutual-information estimator and the PCA are called with
  \<open>random_state = 42\<close>, and nothing else downstream reads the generator. Two runs
  on the same sample give the same five metric tables and the same final ranking,
  whatever the generator's state after the (unseeded) sampling.
\<close>

theorem downstream_deterministic:
  assumes "seeded L"
  shows "estimator_tables L g feats X_sample y_sample
        = estimator_tables L g' feats X_sample y_sample
    \<and> downstream L g feats X_sample y_sample = downstream L g' feats X_sample y_sample"
  using estimator_tables_seed_free [OF assms] downstream_seed_free [OF assms] by blast

theorem downstream_deterministic_witness:
  "estimator_tables demo_library 0 [''Flow Duration'', ''SYN Flag Count'']
       [[0, 1], [1, 1], [4, 1], [1, 1]] [Num 0, Num 1, Num 0, Num 1]
     = estimator_tables demo_library 7 [''Flow Duration'', ''SYN Flag Count'']
       [[0, 1], [1, 1], [4, 1], [1, 1]] [Num 0, Num 1, Num 0, Num 1]
   \<and> downstream demo_library 0 [''Flow Duration'', ''SYN Flag Count'']
       [[0, 1], [1, 1], [4, 1], [1, 1]] [Num 0, Num 1, Num 0, Num 1]
     = downstream demo_library 7 [''Flow Duration'', ''SYN Flag Count'']
       [[0, 1], [1, 1], [4, 1], [1, 1]] [Num 0, Num 1, Num 0, Num 1]"
  using downstream_deterministic [OF demo_library_seeded] by blast

section \<open>Reproducibility of a run\<close>



end
